theory Spec2Isabelle
  imports Complex_Main "HOL-Library.Log_Nat"
begin

section \<open>Subtitler: the transcription-and-translation pipeline\<close>

text \<open>
  A shallow embedding of \<^verbatim>\<open>src/subtitler_util/subtitler.py\<close>. Python exceptions are
  values of \<open>py_error\<close>, a function that may raise returns \<open>py_error + 'a\<close>, a \<open>dict\<close>
  is an association list in insertion order, and the calls to the outside world (whisper,
  deep_translator, the file system, the console) are recorded as a trace of events.
\<close>

subsection \<open>Exceptions\<close>

datatype py_error =
    Exception string      \<comment> \<open>\<^verbatim>\<open>raise Exception("...")\<close> of the source, with its message\<close>
  | TypeError             \<comment> \<open>\<^verbatim>\<open>str + None\<close>\<close>
  | IndexError            \<comment> \<open>\<^verbatim>\<open>[].pop(0)\<close>\<close>
  | KeyError              \<comment> \<open>a missing key of \<^verbatim>\<open>vid_file_map\<close>\<close>
  | AttributeError        \<comment> \<open>a method called on \<^verbatim>\<open>None\<close> or on a \<^verbatim>\<open>str\<close>\<close>
  | OverflowError         \<comment> \<open>\<^verbatim>\<open>datetime + timedelta\<close> out of range\<close>
  | OutOfMemoryError      \<comment> \<open>\<^verbatim>\<open>torch.cuda.OutOfMemoryError\<close>\<close>
  | ExternalError string  \<comment> \<open>any other exception of an external library\<close>

subsection \<open>Strings\<close>

text \<open>
  A Python \<open>str\<close> is a sequence of Unicode code points. The names that the program
  compares and concatenates (languages, providers, model sizes, ISO codes, file names,
  time codes, messages) are modelled as HOL strings, whose characters are the code points
  below 256; the text of the subtitles, which can be in any language, is a list of code
  points.
\<close>

type_synonym unicode = "int list"

definition text_of :: "string \<Rightarrow> unicode" where
  "text_of s = map (\<lambda>c. int (of_char c)) s"

text \<open>\<^verbatim>\<open>str.lower()\<close> on code points below 256: the letters A to Z, and \<^verbatim>\<open>\xc0\<close> to
  \<^verbatim>\<open>\xde\<close> without the multiplication sign \<^verbatim>\<open>\xd7\<close>, move up by 32.\<close>

definition char_lower :: "char \<Rightarrow> char" where
  "char_lower c =
     (let n = (of_char c :: nat)
      in if (65 \<le> n \<and> n \<le> 90) \<or> (192 \<le> n \<and> n \<le> 214) \<or> (216 \<le> n \<and> n \<le> 222)
         then char_of (n + 32) else c)"

definition lower :: "string \<Rightarrow> string" where
  "lower s = map char_lower s"

text \<open>
  \<^verbatim>\<open>str.isspace()\<close> on one code point, the test that \<^verbatim>\<open>str.strip()\<close> applies: the
  characters of Unicode that are whitespace, namely tab to carriage return, the separators
  \<^verbatim>\<open>\x1c\<close> to \<^verbatim>\<open>\x1f\<close>, the space, next line U+0085, the no-break space U+00A0,
  U+1680, U+2000 to U+200A, the line and paragraph separators U+2028 and U+2029, U+202F,
  U+205F and the ideographic space U+3000.
\<close>

definition isspace :: "int \<Rightarrow> bool" where
  "isspace n =
     ((9 \<le> n \<and> n \<le> 13) \<or> (28 \<le> n \<and> n \<le> 32) \<or> n = 133 \<or> n = 160 \<or> n = 5760
      \<or> (8192 \<le> n \<and> n \<le> 8202) \<or> n = 8232 \<or> n = 8233 \<or> n = 8239 \<or> n = 8287
      \<or> n = 12288)"

text \<open>\<^verbatim>\<open>str.strip()\<close> with no argument.\<close>

definition lstrip :: "unicode \<Rightarrow> unicode" where
  "lstrip s = dropWhile isspace s"

definition rstrip :: "unicode \<Rightarrow> unicode" where
  "rstrip s = rev (dropWhile isspace (rev s))"

definition strip :: "unicode \<Rightarrow> unicode" where
  "strip s = rstrip (lstrip s)"

text \<open>\<^verbatim>\<open>s.split(sep)\<close> for a one-character separator: never the empty list.\<close>

fun split_on :: "char \<Rightarrow> string \<Rightarrow> string list" where
  "split_on sep [] = [[]]"
| "split_on sep (c # cs) =
     (if c = sep then [] # split_on sep cs
      else (case split_on sep cs of
              [] \<Rightarrow> [[c]]
            | w # ws \<Rightarrow> (c # w) # ws))"

text \<open>\<^verbatim>\<open>sep.join(parts)\<close>.\<close>

fun join :: "string \<Rightarrow> string list \<Rightarrow> string" where
  "join sep [] = []"
| "join sep [p] = p"
| "join sep (p # q # ps) = p @ sep @ join sep (q # ps)"

text \<open>Decimal digits: \<^verbatim>\<open>str(n)\<close> for an integer, and the fixed-width fields of \<^verbatim>\<open>strftime\<close>.\<close>

definition digit_char :: "int \<Rightarrow> char" where
  "digit_char d = ''0123456789'' ! nat (d mod 10)"

function digits :: "int \<Rightarrow> string \<Rightarrow> string" where
  "digits n acc =
     (if n < 10 then digit_char n # acc
      else digits (n div 10) (digit_char n # acc))"
  by pat_completeness auto
termination
  by (relation "measure (\<lambda>(n, acc). nat n)") auto

definition str_int :: "int \<Rightarrow> string" where
  "str_int i = (if i < 0 then CHR ''-'' # digits (- i) [] else digits i [])"

definition two_digits :: "int \<Rightarrow> string" where
  "two_digits n = [digit_char (n div 10), digit_char n]"

definition six_digits :: "int \<Rightarrow> string" where
  "six_digits n =
     [digit_char (n div 100000), digit_char (n div 10000), digit_char (n div 1000),
      digit_char (n div 100), digit_char (n div 10), digit_char n]"

subsection \<open>Dictionaries\<close>

text \<open>
  A Python \<open>dict\<close> keeps its keys in insertion order; \<^verbatim>\<open>d[k] = v\<close> replaces the value
  of a key that is present, in place, and appends a new key at the end.
\<close>

type_synonym ('k, 'v) dict = "('k \<times> 'v) list"

fun dict_set :: "('k, 'v) dict \<Rightarrow> 'k \<Rightarrow> 'v \<Rightarrow> ('k, 'v) dict" where
  "dict_set [] k v = [(k, v)]"
| "dict_set ((k', v') # d) k v =
     (if k' = k then (k, v) # d else (k', v') # dict_set d k v)"

definition dict_keys :: "('k, 'v) dict \<Rightarrow> 'k list" where
  "dict_keys d = map fst d"

definition dict_get :: "('k, 'v) dict \<Rightarrow> 'k \<Rightarrow> 'v option" where
  "dict_get d k = map_of d k"

subsection \<open>Data model\<close>

text \<open>A segment of the transcription engine's \<^verbatim>\<open>result["segments"]\<close>.\<close>

record raw_segment =
  seg_id :: int
  seg_start :: rat
  seg_end :: rat
  seg_text :: unicode

text \<open>A subtitle entry: \<^verbatim>\<open>{"start_time": ..., "end_time": ..., "text": ...}\<close>.\<close>

record subtitle_entry =
  start_time :: string
  end_time :: string
  entry_text :: unicode  \<comment> \<open>the key \<^verbatim>\<open>"text"\<close>\<close>

type_synonym srt_result = "(int, subtitle_entry) dict"

subsection \<open>Timestamp Formatter\<close>

text \<open>
  A Python float is a double; it is modelled as the rational number it denotes, and the one
  rounded operation that \<^verbatim>\<open>timedelta\<close> performs on it is modelled as IEEE 754 does it.
  \<open>floor_log2 y\<close> is the binary exponent of a positive \<open>y\<close>, and \<open>round_to_double\<close> is
  rounding to the nearest double (53 significant bits, least exponent \<open>-1074\<close>), ties to
  even; overflow does not occur at the magnitudes of this program.
\<close>

definition round_half_even :: "rat \<Rightarrow> int" where
  "round_half_even q =
     (let f = \<lfloor>q\<rfloor>; r = q - of_int f
      in if r < 1 / 2 then f
         else if 1 / 2 < r then f + 1
         else if even f then f else f + 1)"

definition floor_log2 :: "rat \<Rightarrow> int" where
  "floor_log2 y =
     (let (p, q) = quotient_of y; k = bitlen p - bitlen q
      in if 2 powi k \<le> y then k else k - 1)"

definition round_to_double :: "rat \<Rightarrow> rat" where
  "round_to_double y =
     (if y = 0 then 0
      else
        (let a = \<bar>y\<bar>;
             e = max (floor_log2 a - 52) (- 1074);
             m = round_half_even (a / 2 powi e)
         in sgn y * of_int m * 2 powi e))"

text \<open>
  \<^verbatim>\<open>timedelta(seconds=time_in_seconds)\<close> as CPython computes it: \<^verbatim>\<open>modf\<close> splits the
  float into its whole and fractional part, both exact; the whole part is multiplied by
  \<open>10^6\<close> as an integer; the fractional part, when it is not zero, is multiplied by
  \<^verbatim>\<open>1e6\<close> in double precision, and the product is rounded to a whole number of
  microseconds, half to even.
\<close>

definition timedelta_microseconds :: "rat \<Rightarrow> int" where
  "timedelta_microseconds secs =
     (let intpart = (if 0 \<le> secs then \<lfloor>secs\<rfloor> else \<lceil>secs\<rceil>);
          fracpart = secs - of_int intpart
      in if fracpart = 0 then intpart * 1000000
         else intpart * 1000000 + round_half_even (round_to_double (1000000 * fracpart)))"

definition us_per_day :: int where
  "us_per_day = 86400000000"

text \<open>
  \<^verbatim>\<open>dt_obj = datetime.strptime("00:00:00.000", '%H:%M:%S.%f')\<close> is 1900-01-01 00:00:00,
  day 693596 of the proleptic calendar; \<^verbatim>\<open>dt_obj += delta_seconds\<close> raises
  \<^verbatim>\<open>OverflowError\<close> outside the years 1 to 9999, that is more than 693595 days back or
  2958463 days ahead. \<^verbatim>\<open>strftime("%H:%M:%S,%f")\<close> prints the time of day of the sum:
  hour (00 to 23), minute, second, microsecond; \<^verbatim>\<open>[:-3]\<close> cuts the last three digits.
  \<^verbatim>\<open>timedelta\<close> itself raises the same \<^verbatim>\<open>OverflowError\<close> beyond 999999999 days, which
  is outside this range as well.
\<close>

definition format_timestamp :: "rat \<Rightarrow> py_error + string" where
  "format_timestamp time_in_seconds =
     (let us = timedelta_microseconds time_in_seconds
      in if us < - 693595 * us_per_day \<or> 2958464 * us_per_day \<le> us then Inl OverflowError
         else
           (let tod = us mod us_per_day;
                hh = tod div 3600000000;
                mm = (tod div 60000000) mod 60;
                ss = (tod div 1000000) mod 60;
                ff = tod mod 1000000;
                full = two_digits hh @ '':'' @ two_digits mm @ '':'' @ two_digits ss
                         @ '','' @ six_digits ff
            in Inr (take (length full - 3) full)))"

subsection \<open>Segment Normalizer\<close>

text \<open>
  The loop body of \<^verbatim>\<open>post_process_result_for_srt\<close>: the entry of key \<^verbatim>\<open>seg["id"] + 1\<close>
  is set to the two formatted times and the stripped text. An exception of
  \<^verbatim>\<open>format_timestamp\<close> leaves the function, and \<^verbatim>\<open>new_result\<close> with it.
\<close>

fun post_process_segments :: "raw_segment list \<Rightarrow> srt_result \<Rightarrow> py_error + srt_result" where
  "post_process_segments [] new_result = Inr new_result"
| "post_process_segments (seg # segs) new_result =
     (let seg_id' = seg_id seg + 1
      in case format_timestamp (seg_start seg) of
           Inl e \<Rightarrow> Inl e
         | Inr st \<Rightarrow>
             (case format_timestamp (seg_end seg) of
                Inl e \<Rightarrow> Inl e
              | Inr en \<Rightarrow>
                  post_process_segments segs
                    (dict_set new_result seg_id'
                       \<lparr>start_time = st, end_time = en, entry_text = strip (seg_text seg)\<rparr>)))"

definition post_process_result_for_srt :: "raw_segment list \<Rightarrow> py_error + srt_result" where
  "post_process_result_for_srt segments = post_process_segments segments []"

subsection \<open>The outside world\<close>

datatype device = Cuda | Cpu

datatype model = Model string  \<comment> \<open>a loaded whisper model, named by its size\<close>

datatype load_outcome = Loaded | OutOfMemory | LoadFailed string

text \<open>The object that \<^verbatim>\<open>init_translator\<close> returns.\<close>

datatype translator =
    GoogleTranslator string string
  | DeeplTranslator string string string
  | YandexTranslator string string string
  | MicrosoftTranslator string string
  | ChatGptTranslator string string
  | LibreTranslator string string string
  | PlainName string  \<comment> \<open>no branch matched: \<^verbatim>\<open>translator\<close> is still the \<^verbatim>\<open>str\<close>\<close>

text \<open>
  What the run cannot decide by itself. The three tables of \<^verbatim>\<open>constants.py\<close> are
  parameters; the two language tables map a language name to its ISO code. Loading a
  model, transcribing and translating may fail; \<^verbatim>\<open>whisper.load_audio\<close>, the constructors of
  the translators and the writing of files are taken to succeed. Of the lines printed on the
  console only the progress signals are recorded.
\<close>

record world =
  cuda_is_available :: bool
  load_model :: "string \<Rightarrow> device \<Rightarrow> load_outcome"
  transcribe :: "model \<Rightarrow> string \<Rightarrow> string \<Rightarrow> py_error + raw_segment list"
  translate_batch :: "translator \<Rightarrow> unicode list \<Rightarrow> py_error + unicode option list"
  SUPPORTED_TRANSLATORS :: "string list"
  TRANSCRIPTION_SUPPORTED_LANGS :: "(string, string) dict"
  TRANSLATION_SUPPORTED_LANGS :: "(string, string) dict"
  os_name_nt :: bool
  cp850_replace :: "unicode \<Rightarrow> unicode"

text \<open>What the run does to the outside world, in order.\<close>

datatype event =
    Progress nat nat             \<comment> \<open>\<^verbatim>\<open>print(f"progress: {current_step}/{total_steps}")\<close>\<close>
  | LoadModel string device      \<comment> \<open>\<^verbatim>\<open>whisper.load_model(size, device=device)\<close>\<close>
  | WritePref string             \<comment> \<open>\<^verbatim>\<open>.model_pref\<close> is rewritten\<close>
  | LoadAudio string             \<comment> \<open>\<^verbatim>\<open>whisper.load_audio(audio_file)\<close>\<close>
  | Transcribe string string     \<comment> \<open>\<^verbatim>\<open>model.transcribe(audio, language=language)\<close>\<close>
  | TranslateBatch translator "unicode list"  \<comment> \<open>\<^verbatim>\<open>translator.translate_batch(texts)\<close>\<close>
  | WriteFile string unicode     \<comment> \<open>a subtitle file: its name and its content\<close>

text \<open>
  The state a run changes: the trace, and the first line of \<^verbatim>\<open>.model_pref\<close>
  (\<open>None\<close> when the file does not exist).
\<close>

record state =
  trace :: "event list"
  model_pref :: "string option"

definition emit :: "event \<Rightarrow> state \<Rightarrow> state" where
  "emit e st = st\<lparr>trace := trace st @ [e]\<rparr>"

subsection \<open>Language Acquisition Service\<close>

definition load_model_pref :: "string option \<Rightarrow> state \<Rightarrow> string option" where
  "load_model_pref model_size st =
     (case model_size of Some s \<Rightarrow> Some s | None \<Rightarrow> model_pref st)"

definition save_model_pref :: "string \<Rightarrow> state \<Rightarrow> state" where
  "save_model_pref model_size st = emit (WritePref model_size) (st\<lparr>model_pref := Some model_size\<rparr>)"

definition model_sizes :: "string list" where
  "model_sizes =
     [''large-v3-turbo'', ''large-v3'', ''large-v2'', ''large'', ''medium'', ''small'',
      ''base'', ''tiny'']"

definition torch_device :: "world \<Rightarrow> device" where
  "torch_device w = (if cuda_is_available w then Cuda else Cpu)"

text \<open>
  The \<^verbatim>\<open>for model_size in model_sizes\<close> loop: both \<^verbatim>\<open>except\<close> clauses go on with the
  next size, and the loop falls through to \<^verbatim>\<open>return None\<close>.
\<close>

fun try_model_sizes :: "world \<Rightarrow> string list \<Rightarrow> state \<Rightarrow> model option \<times> state" where
  "try_model_sizes w [] st = (None, st)"
| "try_model_sizes w (model_size # rest) st =
     (let st1 = emit (LoadModel model_size (torch_device w)) st
      in case load_model w model_size (torch_device w) of
           Loaded \<Rightarrow> (Some (Model model_size), save_model_pref model_size st1)
         | OutOfMemory \<Rightarrow> try_model_sizes w rest st1
         | LoadFailed msg \<Rightarrow> try_model_sizes w rest st1)"

definition init_model :: "world \<Rightarrow> string option \<Rightarrow> state \<Rightarrow> (py_error + model option) \<times> state" where
  "init_model w model_size st =
     (case load_model_pref model_size st of
        Some pref \<Rightarrow>
          (let st1 = emit (LoadModel pref (torch_device w)) st
           in case load_model w pref (torch_device w) of
                Loaded \<Rightarrow> (Inr (Some (Model pref)), st1)
              | OutOfMemory \<Rightarrow> (Inl OutOfMemoryError, st1)
              | LoadFailed msg \<Rightarrow> (Inl (ExternalError msg), st1))
      | None \<Rightarrow>
          (let (m, st1) = try_model_sizes w model_sizes st in (Inr m, st1)))"

subsection \<open>Transcription\<close>

definition unsupported_language_message :: string where
  "unsupported_language_message =
     ''Cannot Transcribe! Unsupported Language. See Readme for list of supported languages.''"

definition transcribe_audio ::
  "world \<Rightarrow> model option \<Rightarrow> string \<Rightarrow> string \<Rightarrow> state \<Rightarrow> (py_error + srt_result) \<times> state" where
  "transcribe_audio w mdl audio_file language st =
     (let language = lower language
      in if language \<notin> set (dict_keys (TRANSCRIPTION_SUPPORTED_LANGS w))
         then (Inl (Exception unsupported_language_message), st)
         else
           (let st1 = emit (LoadAudio audio_file) st
            in case mdl of
                 None \<Rightarrow> (Inl AttributeError, st1)
               | Some m \<Rightarrow>
                   (let st2 = emit (Transcribe audio_file language) st1
                    in case transcribe w m audio_file language of
                         Inl e \<Rightarrow> (Inl e, st2)
                       | Inr segments \<Rightarrow> (post_process_result_for_srt segments, st2))))"

subsection \<open>Translation Adapter\<close>

definition unsupported_translator_message :: string where
  "unsupported_translator_message =
     ''Unsupported Translator Service Provided. Please request translations from one of the the supported service providers. (see config for complete list.)''"

definition api_key_message :: string where
  "api_key_message =
     ''API_KEY is necessary to access Deepl translation service. Please register for free and get an API-Key at https://www.deepl.com/en/your-account/keys.''"

definition init_translator ::
  "world \<Rightarrow> string \<Rightarrow> string \<Rightarrow> string \<Rightarrow> string option \<Rightarrow> py_error + translator" where
  "init_translator w translator transcribed_language target_language api_key =
     (if translator \<notin> set (SUPPORTED_TRANSLATORS w)
      then Inl (Exception unsupported_translator_message)
      else if translator = ''google''
      then Inr (GoogleTranslator transcribed_language target_language)
      else
        (case api_key of
           None \<Rightarrow> Inl (Exception api_key_message)
         | Some k \<Rightarrow>
             if translator = ''deepl''
             then Inr (DeeplTranslator k transcribed_language target_language)
             else if translator = ''yandex''
             then Inr (YandexTranslator k transcribed_language target_language)
             else if translator = ''microsoft''
             then Inr (MicrosoftTranslator k target_language)
             else if translator = ''chatgpt''
             then Inr (ChatGptTranslator k target_language)
             else if translator = ''libre-translate''
             then Inr (LibreTranslator k transcribed_language target_language)
             else Inr (PlainName translator)))"

text \<open>
  The first loop: an entry with the two times for every id, and the texts in
  \<^verbatim>\<open>translation_cache\<close>.
\<close>

fun collect_entries ::
  "srt_result \<Rightarrow> (int, string \<times> string) dict \<Rightarrow> unicode list
     \<Rightarrow> (int, string \<times> string) dict \<times> unicode list" where
  "collect_entries [] translated_result translation_cache =
     (translated_result, translation_cache)"
| "collect_entries ((id', transcribed_obj) # rest) translated_result translation_cache =
     collect_entries rest
       (dict_set translated_result id' (start_time transcribed_obj, end_time transcribed_obj))
       (translation_cache @ [entry_text transcribed_obj])"

text \<open>
  The second loop: \<^verbatim>\<open>translated_results_cache.pop(0)\<close> raises \<^verbatim>\<open>IndexError\<close> on the
  empty list; a result that is \<^verbatim>\<open>None\<close> becomes the text \<^verbatim>\<open>"."\<close>.
\<close>

fun fill_texts ::
  "(int, string \<times> string) dict \<Rightarrow> unicode option list \<Rightarrow> py_error + srt_result" where
  "fill_texts [] translated_results_cache = Inr []"
| "fill_texts ((id', result_obj) # rest) [] = Inl IndexError"
| "fill_texts ((id', result_obj) # rest) (temp # translated_results_cache) =
     (case fill_texts rest translated_results_cache of
        Inl e \<Rightarrow> Inl e
      | Inr filled \<Rightarrow>
          Inr ((id', \<lparr>start_time = fst result_obj, end_time = snd result_obj,
                     entry_text = (case temp of Some t \<Rightarrow> t | None \<Rightarrow> text_of ''.'')\<rparr>) # filled))"

definition translate_transcribed_result ::
  "world \<Rightarrow> srt_result \<Rightarrow> string \<Rightarrow> string \<Rightarrow> string \<Rightarrow> string option \<Rightarrow> state
     \<Rightarrow> (py_error + srt_result) \<times> state" where
  "translate_transcribed_result w transcribed_result transcribed_language target_language
       translator api_key st =
     (case init_translator w translator transcribed_language target_language api_key of
        Inl e \<Rightarrow> (Inl e, st)
      | Inr tr \<Rightarrow>
          (let (translated_result, translation_cache) = collect_entries transcribed_result [] []
           in case tr of
                PlainName n \<Rightarrow> (Inl AttributeError, st)
              | _ \<Rightarrow>
                  (let st1 = emit (TranslateBatch tr translation_cache) st
                   in case translate_batch w tr translation_cache of
                        Inl e \<Rightarrow> (Inl e, st1)
                      | Inr translated_results_cache \<Rightarrow>
                          (fill_texts translated_result translated_results_cache, st1))))"

subsection \<open>Subtitle Writer\<close>

definition get_lang_iso_code :: "world \<Rightarrow> string \<Rightarrow> string option" where
  "get_lang_iso_code w lang =
     (case dict_get (TRANSCRIPTION_SUPPORTED_LANGS w) lang of
        Some code \<Rightarrow> Some code
      | None \<Rightarrow>
          (case dict_get (TRANSLATION_SUPPORTED_LANGS w) lang of
             Some code \<Rightarrow> Some code
           | None \<Rightarrow> None))"

definition newline :: char where
  "newline = CHR 0x0A"

fun srt_body :: "(unicode \<Rightarrow> unicode) \<Rightarrow> srt_result \<Rightarrow> unicode" where
  "srt_body enc [] = []"
| "srt_body enc ((id', result_obj) # rest) =
     text_of (str_int id' @ [newline])
       @ text_of (start_time result_obj @ '' --> '' @ end_time result_obj @ [newline])
       @ enc (entry_text result_obj)
       @ text_of [newline, newline]
       @ srt_body enc rest"

text \<open>
  The file name is built first: \<^verbatim>\<open>str + None\<close> raises \<^verbatim>\<open>TypeError\<close> when the language
  has no ISO code, before any file is opened.
\<close>

definition save_result_as_srt ::
  "world \<Rightarrow> srt_result \<Rightarrow> string \<Rightarrow> string \<Rightarrow> bool \<Rightarrow> state \<Rightarrow> (py_error + string) \<times> state" where
  "save_result_as_srt w result target_language video_file_name default_srt_file st =
     (let target_language = lower target_language;
          base = join ''.'' (butlast (split_on CHR ''.'' video_file_name))
      in case get_lang_iso_code w target_language of
           None \<Rightarrow> (Inl TypeError, st)
         | Some code \<Rightarrow>
             (let srt_file_name =
                    (if default_srt_file then base @ ''.default.'' @ code @ ''.srt''
                     else base @ ''.'' @ code @ ''.srt'');
                  body = (if os_name_nt w then srt_body (cp850_replace w) result
                          else srt_body (\<lambda>t. t) result)
              in (Inr srt_file_name, emit (WriteFile srt_file_name body) st)))"

subsection \<open>Pipeline Orchestrator\<close>

record run_configuration =
  vid_file_map :: "(string, string) dict"
  audio_files :: "string list"
  video_language :: string
  translation_languages :: "string list"
  translation_service :: string
  translation_service_api_key :: "string option"
  model_size :: "string option"
  mode :: "string option"

record progress =
  current_step :: nat
  total_steps :: nat

definition print_and_update_progress ::
  "string option \<Rightarrow> bool \<Rightarrow> progress \<Rightarrow> state \<Rightarrow> progress \<times> state" where
  "print_and_update_progress md update_progress p st =
     (if md = Some ''gui''
      then
        (let st1 = emit (Progress (current_step p) (total_steps p)) st
         in if update_progress then (p\<lparr>current_step := current_step p + 1\<rparr>, st1)
            else (p, st1))
      else (p, st))"

text \<open>The inner loop, over \<^verbatim>\<open>translation_languages\<close>.\<close>

fun translate_all ::
  "world \<Rightarrow> run_configuration \<Rightarrow> srt_result \<Rightarrow> string \<Rightarrow> string list \<Rightarrow> progress \<Rightarrow> state
     \<Rightarrow> (py_error + unit) \<times> progress \<times> state" where
  "translate_all w cfg r vid [] p st = (Inr (), p, st)"
| "translate_all w cfg r vid (translation_lang # langs) p st =
     (case translate_transcribed_result w r (video_language cfg) translation_lang
             (translation_service cfg) (translation_service_api_key cfg) st of
        (Inl e, st1) \<Rightarrow> (Inl e, p, st1)
      | (Inr r2, st1) \<Rightarrow>
          (let (p1, st2) = print_and_update_progress (mode cfg) True p st1
           in case save_result_as_srt w r2 translation_lang vid False st2 of
                (Inl e, st3) \<Rightarrow> (Inl e, p1, st3)
              | (Inr saved_file, st3) \<Rightarrow>
                  (let (p2, st4) = print_and_update_progress (mode cfg) True p1 st3
                   in translate_all w cfg r vid langs p2 st4)))"

text \<open>
  The outer loop, over \<^verbatim>\<open>audio_files\<close>. The first statement of its body reads
  \<^verbatim>\<open>vid_file_map[audio_file]\<close>.
\<close>

fun subtitle_files ::
  "world \<Rightarrow> run_configuration \<Rightarrow> model option \<Rightarrow> string list \<Rightarrow> progress \<Rightarrow> state
     \<Rightarrow> (py_error + unit) \<times> progress \<times> state" where
  "subtitle_files w cfg mdl [] p st = (Inr (), p, st)"
| "subtitle_files w cfg mdl (audio_file # rest) p st =
     (case dict_get (vid_file_map cfg) audio_file of
        None \<Rightarrow> (Inl KeyError, p, st)
      | Some vid \<Rightarrow>
          (case transcribe_audio w mdl audio_file (video_language cfg) st of
             (Inl e, st1) \<Rightarrow> (Inl e, p, st1)
           | (Inr r, st1) \<Rightarrow>
               (let (p1, st2) = print_and_update_progress (mode cfg) True p st1
                in case save_result_as_srt w r (video_language cfg) vid True st2 of
                     (Inl e, st3) \<Rightarrow> (Inl e, p1, st3)
                   | (Inr saved_file, st3) \<Rightarrow>
                       (let (p2, st4) = print_and_update_progress (mode cfg) True p1 st3
                        in case translate_all w cfg r vid (translation_languages cfg) p2 st4 of
                             (Inl e, p3, st5) \<Rightarrow> (Inl e, p3, st5)
                           | (Inr u, p3, st5) \<Rightarrow> subtitle_files w cfg mdl rest p3 st5))))"

definition subtitle ::
  "world \<Rightarrow> run_configuration \<Rightarrow> state \<Rightarrow> (py_error + unit) \<times> progress \<times> state" where
  "subtitle w cfg st =
     (let p0 = \<lparr>current_step = 1, total_steps = 2\<rparr>;
          (p1, st1) = print_and_update_progress (mode cfg) False p0 st
      in case init_model w (model_size cfg) st1 of
           (Inl e, st2) \<Rightarrow> (Inl e, p1, st2)
         | (Inr mdl, st2) \<Rightarrow>
             (let (p2, st3) = print_and_update_progress (mode cfg) True p1 st2;
                  p3 = p2\<lparr>total_steps :=
                            total_steps p2 + (length (audio_files cfg) * 2)
                              + (length (audio_files cfg) * length (translation_languages cfg) * 2)\<rparr>;
                  (p4, st4) = print_and_update_progress (mode cfg) False p3 st3
              in subtitle_files w cfg mdl (audio_files cfg) p4 st4))"

subsection \<open>Reading a trace\<close>

text \<open>The progress signals of a trace, as pairs \<open>(current, total)\<close>, and all its other events.\<close>

fun progress_signals :: "event list \<Rightarrow> (nat \<times> nat) list" where
  "progress_signals [] = []"
| "progress_signals (Progress c t # es) = (c, t) # progress_signals es"
| "progress_signals (e # es) = progress_signals es"

fun is_progress :: "event \<Rightarrow> bool" where
  "is_progress (Progress c t) = True"
| "is_progress e = False"

definition external_calls :: "event list \<Rightarrow> event list" where
  "external_calls tr = filter (\<lambda>e. \<not> is_progress e) tr"

text \<open>
  The events that complete a step of the pipeline (a transcription, a translation, a file
  written), the events of loading a model, and the reading of an audio file.
\<close>

fun is_step :: "event \<Rightarrow> bool" where
  "is_step (Transcribe f l) = True"
| "is_step (TranslateBatch tr texts) = True"
| "is_step (WriteFile name content) = True"
| "is_step e = False"

fun is_model_event :: "event \<Rightarrow> bool" where
  "is_model_event (LoadModel sz dev) = True"
| "is_model_event (WritePref sz) = True"
| "is_model_event e = False"

fun is_load_audio :: "event \<Rightarrow> bool" where
  "is_load_audio (LoadAudio f) = True"
| "is_load_audio e = False"

text \<open>
  A sequence of steps, each followed at once by its progress signal: the signals count up
  from \<open>c\<close> and carry the total \<open>N\<close>.
\<close>

fun steps_with_signals :: "event list \<Rightarrow> nat \<Rightarrow> nat \<Rightarrow> event list" where
  "steps_with_signals [] c N = []"
| "steps_with_signals (e # es) c N = e # Progress c N # steps_with_signals es (Suc c) N"

subsection \<open>Reading a time code back\<close>






subsection \<open>Closed forms used in the proofs\<close>

text \<open>
  The entry the loop body stores for a segment, when both of its times can be formatted.
\<close>

definition entry_of_segment :: "raw_segment \<Rightarrow> int \<times> subtitle_entry" where
  "entry_of_segment seg =
     (seg_id seg + 1,
      \<lparr>start_time = projr (format_timestamp (seg_start seg)),
       end_time = projr (format_timestamp (seg_end seg)),
       entry_text = strip (seg_text seg)\<rparr>)"


subsection \<open>A concrete run\<close>

text \<open>
  One video in English, to be translated into Spanish by the default provider, on a
  machine where only the smallest model fits; the provider has no result for the second
  text. The first text begins with an ideographic space and ends with a no-break space; the
  end of the second segment is the float \<^verbatim>\<open>3661.0015\<close>.
\<close>

definition demo_segments :: "raw_segment list" where
  "demo_segments =
     [\<lparr>seg_id = 0, seg_start = 0, seg_end = 5 / 2, seg_text = 12288 # text_of ''hello'' @ [160]\<rparr>,
      \<lparr>seg_id = 1, seg_start = 5 / 2, seg_end = 8050627437110755 / 2199023255552, seg_text = text_of ''world''\<rparr>]"

definition demo_world :: world where
  "demo_world =
     \<lparr>cuda_is_available = False,
      load_model = (\<lambda>size dev. if size = ''tiny'' then Loaded else OutOfMemory),
      transcribe = (\<lambda>m audio lang. Inr demo_segments),
      translate_batch =
        (\<lambda>tr texts.
           Inr (map (\<lambda>t. if t = text_of ''world'' then None else Some (126 # t)) texts)),
      SUPPORTED_TRANSLATORS = [''google'', ''deepl''],
      TRANSCRIPTION_SUPPORTED_LANGS = [(''english'', ''en'')],
      TRANSLATION_SUPPORTED_LANGS = [(''spanish'', ''es''), (''french'', ''fr'')],
      os_name_nt = False,
      cp850_replace = (\<lambda>t. t)\<rparr>"

definition demo_cfg :: run_configuration where
  "demo_cfg =
     \<lparr>vid_file_map = [(''tmp/a.wav'', ''v/a.mp4'')],
      audio_files = [''tmp/a.wav''],
      video_language = ''English'',
      translation_languages = [''spanish''],
      translation_service = ''google'',
      translation_service_api_key = None,
      model_size = None,
      mode = Some ''gui''\<rparr>"

definition initial_state :: state where
  "initial_state = \<lparr>trace = [], model_pref = None\<rparr>"

text \<open>The transcript of the run above, as \<^verbatim>\<open>transcribe_audio\<close> returns it.\<close>

definition demo_transcript :: srt_result where
  "demo_transcript =
     [(1, \<lparr>start_time = ''00:00:00,000'', end_time = ''00:00:02,500'', entry_text = text_of ''hello''\<rparr>),
      (2, \<lparr>start_time = ''00:00:02,500'', end_time = ''01:01:01,001'', entry_text = text_of ''world''\<rparr>)]"

text \<open>Its translation, with the placeholder for the second text.\<close>

definition demo_translation :: srt_result where
  "demo_translation =
     [(1, \<lparr>start_time = ''00:00:00,000'', end_time = ''00:00:02,500'', entry_text = text_of ''~hello''\<rparr>),
      (2, \<lparr>start_time = ''00:00:02,500'', end_time = ''01:01:01,001'', entry_text = text_of ''.''\<rparr>)]"

text \<open>A machine on which no model loads, and a provider that returns an empty list.\<close>

definition no_model_world :: world where
  "no_model_world = demo_world\<lparr>load_model := (\<lambda>size dev. OutOfMemory)\<rparr>"

definition short_provider_world :: world where
  "short_provider_world = demo_world\<lparr>translate_batch := (\<lambda>tr texts. Inr [])\<rparr>"

section \<open>Properties\<close>

subsection \<open>Helper lemmas\<close>

subsubsection \<open>Dictionaries and model loading\<close>

lemma dict_get_None: "dict_get d k = None \<longleftrightarrow> k \<notin> set (dict_keys d)"
  by (simp add: dict_get_def dict_keys_def map_of_eq_None_iff)

lemma try_model_sizes_result:
  "try_model_sizes w sizes st =
     (case find (\<lambda>s. load_model w s (torch_device w) = Loaded) sizes of
        None \<Rightarrow> (None, st\<lparr>trace := trace st @ map (\<lambda>s. LoadModel s (torch_device w)) sizes\<rparr>)
      | Some sz \<Rightarrow>
          (Some (Model sz),
           st\<lparr>trace := trace st
                  @ map (\<lambda>s. LoadModel s (torch_device w))
                      (takeWhile (\<lambda>s. load_model w s (torch_device w) \<noteq> Loaded) sizes @ [sz])
                  @ [WritePref sz],
              model_pref := Some sz\<rparr>))"
proof (induction sizes arbitrary: st)
  case Nil
  show ?case by simp
next
  case (Cons a sizes)
  show ?case
  proof (cases "load_model w a (torch_device w)")
    case Loaded
    then show ?thesis by (simp add: emit_def save_model_pref_def)
  next
    case OutOfMemory
    then show ?thesis
      by (simp add: Cons.IH emit_def split: option.splits)
  next
    case (LoadFailed msg)
    then show ?thesis
      by (simp add: Cons.IH emit_def split: option.splits)
  qed
qed

subsubsection \<open>The two loops of the Translation Adapter\<close>

lemma dict_set_new: "k \<notin> set (dict_keys d) \<Longrightarrow> dict_set d k v = d @ [(k, v)]"
  by (induction d) (auto simp: dict_keys_def)

lemma collect_entries_distinct:
  "distinct (dict_keys acc @ dict_keys r) \<Longrightarrow>
   collect_entries r acc cache =
     (acc @ map (\<lambda>(i, obj). (i, (start_time obj, end_time obj))) r,
      cache @ map (\<lambda>(i, obj). entry_text obj) r)"
proof (induction r arbitrary: acc cache)
  case Nil
  show ?case by simp
next
  case (Cons a r)
  obtain i obj where a: "a = (i, obj)" by (cases a)
  have new: "i \<notin> set (dict_keys acc)"
    using Cons.prems by (auto simp: a dict_keys_def)
  have d: "distinct (dict_keys (acc @ [(i, (start_time obj, end_time obj))]) @ dict_keys r)"
    using Cons.prems by (auto simp: a dict_keys_def)
  show ?case
    by (simp add: a dict_set_new [OF new] Cons.IH [OF d])
qed

lemma fill_texts_enough:
  "length tr \<le> length cache \<Longrightarrow>
   fill_texts tr cache =
     Inr (map (\<lambda>((i, se), temp).
                 (i, \<lparr>start_time = fst se, end_time = snd se,
                      entry_text = (case temp of Some t \<Rightarrow> t | None \<Rightarrow> text_of ''.'')\<rparr>))
            (zip tr cache))"
proof (induction tr cache rule: fill_texts.induct)
  case (1 cache)
  show ?case by simp
next
  case (2 i se rest)
  then show ?case by simp
next
  case (3 i se rest temp cache)
  then show ?case by simp
qed

lemma fill_texts_short:
  "length cache < length tr \<Longrightarrow> fill_texts tr cache = Inl IndexError"
  by (induction tr cache rule: fill_texts.induct) auto

lemma fill_texts_frame:
  "fill_texts tr cache = Inr out \<Longrightarrow>
   length out = length tr \<and> dict_keys out = dict_keys tr \<and>
   map (\<lambda>(i, obj). (start_time obj, end_time obj)) out = map snd tr"
  by (induction tr cache arbitrary: out rule: fill_texts.induct)
     (auto simp: dict_keys_def split: sum.splits)

lemma fill_texts_text:
  "fill_texts tr cache = Inr out \<Longrightarrow> i < length tr \<Longrightarrow>
   entry_text (snd (out ! i)) = (case cache ! i of Some t \<Rightarrow> t | None \<Rightarrow> text_of ''.'')"
proof (induction tr cache arbitrary: out i rule: fill_texts.induct)
  case (1 cache)
  then show ?case by simp
next
  case (2 i' se rest)
  then show ?case by simp
next
  case (3 i' se rest temp cache)
  then show ?case
    by (cases i) (auto split: sum.splits)
qed

lemma translate_transcribed_result_run:
  assumes "distinct (dict_keys transcribed_result)"
    and "init_translator w translator src tgt api_key = Inr tr"
    and "\<forall>n. tr \<noteq> PlainName n"
    and "translate_batch w tr (map (\<lambda>(i, obj). entry_text obj) transcribed_result) = Inr results"
  shows "translate_transcribed_result w transcribed_result src tgt translator api_key st =
           (fill_texts (map (\<lambda>(i, obj). (i, (start_time obj, end_time obj))) transcribed_result)
              results,
            emit (TranslateBatch tr (map (\<lambda>(i, obj). entry_text obj) transcribed_result)) st)"
proof -
  have c: "collect_entries transcribed_result [] [] =
             (map (\<lambda>(i, obj). (i, (start_time obj, end_time obj))) transcribed_result,
              map (\<lambda>(i, obj). entry_text obj) transcribed_result)"
    using collect_entries_distinct [of "[]" transcribed_result "[]"] assms(1)
    by (simp add: dict_keys_def)
  show ?thesis
    using assms(2,3,4)
    by (cases tr) (simp_all add: translate_transcribed_result_def c Let_def)
qed

lemma translate_transcribed_result_Inr:
  assumes "distinct (dict_keys transcribed_result)"
    and "translate_transcribed_result w transcribed_result src tgt translator api_key st
           = (Inr out, st')"
  shows "\<exists>results. fill_texts (map (\<lambda>(i, obj). (i, (start_time obj, end_time obj)))
                        transcribed_result) results = Inr out"
proof -
  have c: "collect_entries transcribed_result [] [] =
             (map (\<lambda>(i, obj). (i, (start_time obj, end_time obj))) transcribed_result,
              map (\<lambda>(i, obj). entry_text obj) transcribed_result)"
    using collect_entries_distinct [of "[]" transcribed_result "[]"] assms(1)
    by (simp add: dict_keys_def)
  show ?thesis
    using assms(2)
    by (auto simp: translate_transcribed_result_def c Let_def
             split: sum.splits translator.splits)
qed

subsubsection \<open>Stripping and normalizing\<close>

lemma rev_dropWhile_takeWhile:
  "rev (dropWhile P (rev xs)) @ rev (takeWhile P (rev xs)) = xs"
proof -
  have "rev (takeWhile P (rev xs) @ dropWhile P (rev xs)) = rev (rev xs)"
    by (simp only: takeWhile_dropWhile_id)
  then show ?thesis
    by (simp only: rev_append rev_rev_ident)
qed

lemma list_all_takeWhile: "list_all P (takeWhile P xs)"
  by (induction xs) simp_all

lemma strip_decomposition:
  "\<exists>pre suf. s = pre @ strip s @ suf \<and> list_all isspace pre \<and> list_all isspace suf"
proof -
  let ?m = "dropWhile isspace s"
  let ?suf = "rev (takeWhile isspace (rev ?m))"
  have "takeWhile isspace s @ ?m = s" by simp
  moreover have "strip s @ ?suf = ?m"
    unfolding strip_def lstrip_def rstrip_def by (rule rev_dropWhile_takeWhile)
  ultimately have 3: "s = takeWhile isspace s @ strip s @ ?suf"
    by simp
  have 4: "list_all isspace (takeWhile isspace s)"
    by (rule list_all_takeWhile)
  have "list_all isspace (takeWhile isspace (rev ?m))"
    by (rule list_all_takeWhile)
  then have 5: "list_all isspace ?suf"
    by (simp add: list_all_iff)
  from 3 4 5 show ?thesis by blast
qed

lemma strip_edges:
  assumes "strip s \<noteq> []"
  shows "\<not> isspace (hd (strip s)) \<and> \<not> isspace (last (strip s))"
proof -
  let ?m = "dropWhile isspace s"
  let ?d = "dropWhile isspace (rev ?m)"
  have s: "strip s = rev ?d" by (simp add: strip_def lstrip_def rstrip_def)
  with assms have d: "?d \<noteq> []" by simp
  then have l: "\<not> isspace (hd ?d)" by (rule hd_dropWhile)
  have "last (rev ?d) = hd ?d" using d by (simp add: last_rev)
  with l s have last: "\<not> isspace (last (strip s))" by simp
  have m: "?m \<noteq> []"
  proof
    assume e: "?m = []"
    have "?d = dropWhile isspace (rev [])" by (simp only: e)
    with d show False by simp
  qed
  then have hm: "\<not> isspace (hd ?m)" by (rule hd_dropWhile)
  have "rev ?d @ rev (takeWhile isspace (rev ?m)) = ?m"
    by (rule rev_dropWhile_takeWhile)
  then have "hd ?m = hd (rev ?d @ rev (takeWhile isspace (rev ?m)))" by simp
  also have "\<dots> = hd (rev ?d)" using d by simp
  finally have "hd (strip s) = hd ?m" using s by simp
  with hm last show ?thesis by simp
qed

lemma format_timestamp_cases:
  "format_timestamp t \<noteq> Inl OverflowError \<Longrightarrow> \<exists>s. format_timestamp t = Inr s"
  by (simp add: format_timestamp_def Let_def split: if_splits)

lemma post_process_segments_distinct:
  assumes "distinct (dict_keys acc @ map (\<lambda>seg. seg_id seg + 1) segs)"
    and "\<forall>seg \<in> set segs. format_timestamp (seg_start seg) \<noteq> Inl OverflowError
                         \<and> format_timestamp (seg_end seg) \<noteq> Inl OverflowError"
  shows "post_process_segments segs acc = Inr (acc @ map entry_of_segment segs)"
  using assms
proof (induction segs arbitrary: acc)
  case Nil
  show ?case by simp
next
  case (Cons seg segs)
  obtain st where st: "format_timestamp (seg_start seg) = Inr st"
    using Cons.prems(2) format_timestamp_cases by auto
  obtain en where en: "format_timestamp (seg_end seg) = Inr en"
    using Cons.prems(2) format_timestamp_cases by auto
  have new: "seg_id seg + 1 \<notin> set (dict_keys acc)"
    using Cons.prems(1) by auto
  let ?e = "\<lparr>start_time = st, end_time = en, entry_text = strip (seg_text seg)\<rparr>"
  have d: "distinct (dict_keys (acc @ [(seg_id seg + 1, ?e)]) @ map (\<lambda>seg. seg_id seg + 1) segs)"
    using Cons.prems(1) by (auto simp: dict_keys_def)
  have r: "\<forall>seg \<in> set segs. format_timestamp (seg_start seg) \<noteq> Inl OverflowError
                         \<and> format_timestamp (seg_end seg) \<noteq> Inl OverflowError"
    using Cons.prems(2) by simp
  show ?case
    by (simp add: st en dict_set_new [OF new] Cons.IH [OF d r] entry_of_segment_def)
qed

subsubsection \<open>Digits and time codes\<close>























subsubsection \<open>Traces of the Orchestrator\<close>

lemma progress_signals_append:
  "progress_signals (a @ b) = progress_signals a @ progress_signals b"
  by (induction a rule: progress_signals.induct) simp_all

lemma external_calls_append:
  "external_calls (a @ b) = external_calls a @ external_calls b"
  by (simp add: external_calls_def)

lemma print_and_update_progress_calls:
  "external_calls (trace (snd (print_and_update_progress md u p st))) = external_calls (trace st)
   \<and> model_pref (snd (print_and_update_progress md u p st)) = model_pref st"
  by (simp add: print_and_update_progress_def emit_def Let_def external_calls_def)

lemma init_model_no_model:
  assumes "model_pref st = None"
    and "\<forall>s \<in> set model_sizes. load_model w s (torch_device w) \<noteq> Loaded"
  shows "init_model w None st =
           (Inr None, st\<lparr>trace := trace st @ map (\<lambda>s. LoadModel s (torch_device w)) model_sizes\<rparr>)"
proof -
  have "find (\<lambda>s. load_model w s (torch_device w) = Loaded) model_sizes = None"
    using assms(2) by (simp add: find_None_iff)
  then show ?thesis
    using assms(1)
    by (simp add: init_model_def load_model_pref_def try_model_sizes_result)
qed

lemma subtitle_files_no_model:
  "subtitle_files w cfg None files p st =
     (case files of
        [] \<Rightarrow> (Inr (), p, st)
      | f # rest \<Rightarrow>
          (case dict_get (vid_file_map cfg) f of
             None \<Rightarrow> (Inl KeyError, p, st)
           | Some vid \<Rightarrow>
               if lower (video_language cfg) \<in> set (dict_keys (TRANSCRIPTION_SUPPORTED_LANGS w))
               then (Inl AttributeError, p, emit (LoadAudio f) st)
               else (Inl (Exception unsupported_language_message), p, st)))"
  by (cases files) (simp_all add: transcribe_audio_def Let_def split: option.splits)

lemma print_gui:
  "print_and_update_progress (Some ''gui'') u p st =
     (if u then p\<lparr>current_step := current_step p + 1\<rparr> else p,
      emit (Progress (current_step p) (total_steps p)) st)"
  by (simp add: print_and_update_progress_def Let_def)

lemma signals_emit_progress:
  "progress_signals (trace (emit (Progress c t) st)) = progress_signals (trace st) @ [(c, t)]"
  by (simp add: emit_def progress_signals_append)

lemma try_model_sizes_signals:
  "progress_signals (trace (snd (try_model_sizes w sizes st))) = progress_signals (trace st)"
  by (induction sizes arbitrary: st)
     (simp_all add: Let_def emit_def save_model_pref_def progress_signals_append
        split: load_outcome.splits)

lemma init_model_signals:
  "progress_signals (trace (snd (init_model w ms st))) = progress_signals (trace st)"
proof (cases "load_model_pref ms st")
  case None
  then show ?thesis
    using try_model_sizes_signals [of w model_sizes st]
    by (simp add: init_model_def split_def Let_def)
next
  case (Some pref)
  then show ?thesis
    by (simp add: init_model_def Let_def emit_def progress_signals_append
          split: load_outcome.splits)
qed

lemma transcribe_audio_signals:
  "progress_signals (trace (snd (transcribe_audio w mdl f l st))) = progress_signals (trace st)"
  by (simp add: transcribe_audio_def Let_def emit_def progress_signals_append
        split: option.splits sum.splits)

lemma translate_transcribed_result_signals:
  "progress_signals (trace (snd (translate_transcribed_result w r src tgt tr key st)))
     = progress_signals (trace st)"
  by (simp add: translate_transcribed_result_def Let_def emit_def progress_signals_append
        split_def split: sum.splits translator.splits)

lemma save_result_as_srt_signals:
  "progress_signals (trace (snd (save_result_as_srt w r l v d st))) = progress_signals (trace st)"
  by (simp add: save_result_as_srt_def Let_def emit_def progress_signals_append
        split: option.splits)

lemma upt_two: "[c ..< c + (2 + n)] = c # (c + 1) # [c + 2 ..< c + 2 + n]"
proof -
  have "[c ..< c + (2 + n)] = c # [Suc c ..< c + (2 + n)]"
    by (rule upt_conv_Cons) simp
  also have "[Suc c ..< c + (2 + n)] = Suc c # [Suc (Suc c) ..< c + (2 + n)]"
    by (rule upt_conv_Cons) simp
  finally show ?thesis
    by (simp add: add.assoc)
qed

lemma upt_join:
  assumes "c \<le> m" and "m \<le> (d::nat)"
  shows "[c ..< m] @ [m ..< d] = [c ..< d]"
proof -
  obtain k where d: "d = m + k"
    using assms(2) le_iff_add by blast
  show ?thesis
    unfolding d by (rule upt_add_eq_append [symmetric, OF assms(1)])
qed

lemma translate_all_signals:
  assumes "mode cfg = Some ''gui''"
    and "translate_all w cfg r vid langs p st = (res, p', st')"
  shows "total_steps p' = total_steps p
         \<and> current_step p \<le> current_step p'
         \<and> current_step p' \<le> current_step p + 2 * length langs
         \<and> (\<forall>u. res = Inr u \<longrightarrow> current_step p' = current_step p + 2 * length langs)
         \<and> progress_signals (trace st') =
             progress_signals (trace st)
               @ map (\<lambda>k. (k, total_steps p)) [current_step p ..< current_step p']"
  using assms(2)
proof (induction langs arbitrary: p st)
  case Nil
  then show ?case by auto
next
  case (Cons lang langs)
  obtain res1 st1 where t: "translate_transcribed_result w r (video_language cfg) lang
      (translation_service cfg) (translation_service_api_key cfg) st = (res1, st1)"
    by (cases "translate_transcribed_result w r (video_language cfg) lang
      (translation_service cfg) (translation_service_api_key cfg) st")
  have g1: "progress_signals (trace st1) = progress_signals (trace st)"
    using translate_transcribed_result_signals
            [of w r "video_language cfg" lang "translation_service cfg"
                "translation_service_api_key cfg" st] t by simp
  show ?case
  proof (cases res1)
    case (Inl e)
    with Cons.prems t have "res = Inl e" "p' = p" "st' = st1" by simp_all
    then show ?thesis by (simp add: g1)
  next
    case (Inr r2)
    define p1 where "p1 = p\<lparr>current_step := current_step p + 1\<rparr>"
    define st2 where "st2 = emit (Progress (current_step p) (total_steps p)) st1"
    obtain res3 st3 where s: "save_result_as_srt w r2 lang vid False st2 = (res3, st3)"
      by (cases "save_result_as_srt w r2 lang vid False st2")
    have g3: "progress_signals (trace st3) =
                progress_signals (trace st) @ [(current_step p, total_steps p)]"
      using save_result_as_srt_signals [of w r2 lang vid False st2] s
      by (simp add: st2_def signals_emit_progress g1)
    show ?thesis
    proof (cases res3)
      case (Inl e)
      with Cons.prems t Inr s have "res = Inl e" "p' = p1" "st' = st3"
        by (simp_all add: assms(1) print_gui p1_def st2_def)
      then show ?thesis by (simp add: g3 p1_def)
    next
      case (Inr saved)
      define p2 where "p2 = p1\<lparr>current_step := current_step p1 + 1\<rparr>"
      define st4 where "st4 = emit (Progress (current_step p1) (total_steps p1)) st3"
      have rest: "translate_all w cfg r vid langs p2 st4 = (res, p', st')"
        using Cons.prems t \<open>res1 = Inr r2\<close> s Inr
        by (simp add: assms(1) print_gui p1_def st2_def p2_def st4_def)
      note ih = Cons.IH [OF rest]
      have c2: "current_step p2 = current_step p + 2" "total_steps p2 = total_steps p"
        by (simp_all add: p2_def p1_def)
      have g4: "progress_signals (trace st4) =
                  progress_signals (trace st)
                    @ map (\<lambda>k. (k, total_steps p)) [current_step p ..< current_step p + 2]"
        using upt_two [of "current_step p" 0]
        by (simp add: st4_def p1_def signals_emit_progress g3)
      have le: "current_step p + 2 \<le> current_step p'"
        using ih by (simp add: c2)
      have "[current_step p ..< current_step p + 2] @ [current_step p + 2 ..< current_step p']
              = [current_step p ..< current_step p']"
        by (rule upt_join) (simp, rule le)
      then have j: "map (\<lambda>k. (k, total_steps p)) [current_step p ..< current_step p + 2]
              @ map (\<lambda>k. (k, total_steps p)) [current_step p + 2 ..< current_step p']
              = map (\<lambda>k. (k, total_steps p)) [current_step p ..< current_step p']"
        by (simp only: map_append [symmetric])
      have "progress_signals (trace st') =
              progress_signals (trace st4)
                @ map (\<lambda>k. (k, total_steps p)) [current_step p + 2 ..< current_step p']"
        using ih by (simp add: c2)
      then have sig: "progress_signals (trace st') =
              progress_signals (trace st)
                @ map (\<lambda>k. (k, total_steps p)) [current_step p ..< current_step p']"
        unfolding g4 by (simp only: append_assoc j)
      from ih sig show ?thesis
        by (simp add: c2)
    qed
  qed
qed

lemma signals_join:
  assumes "sig1 = sig0 @ map f [c ..< m]" and "sig2 = sig1 @ map f [m ..< d]"
    and "c \<le> m" and "m \<le> (d::nat)"
  shows "sig2 = sig0 @ map f [c ..< d]"
  unfolding assms(2) assms(1) upt_join [OF assms(3,4), symmetric] by simp

lemma subtitle_files_signals:
  assumes "mode cfg = Some ''gui''"
    and "subtitle_files w cfg mdl files p st = (res, p', st')"
  shows "total_steps p' = total_steps p
         \<and> current_step p \<le> current_step p'
         \<and> current_step p' \<le>
             current_step p + length files * (2 + 2 * length (translation_languages cfg))
         \<and> (\<forall>u. res = Inr u \<longrightarrow>
               current_step p' =
                 current_step p + length files * (2 + 2 * length (translation_languages cfg)))
         \<and> progress_signals (trace st') =
             progress_signals (trace st)
               @ map (\<lambda>k. (k, total_steps p)) [current_step p ..< current_step p']"
  using assms(2)
proof (induction files arbitrary: p st)
  case Nil
  then show ?case by auto
next
  case (Cons f files)
  define n where "n = 2 + 2 * length (translation_languages cfg)"
  define c where "c = current_step p"
  have n2: "2 \<le> n" by (simp add: n_def)
  have len: "length (f # files) * n = n + length files * n" by simp
  show ?case
  proof (cases "dict_get (vid_file_map cfg) f")
    case None
    with Cons.prems have "res = Inl KeyError" "p' = p" "st' = st" by simp_all
    then show ?thesis by simp
  next
    case (Some vid)
    obtain res1 st1 where t: "transcribe_audio w mdl f (video_language cfg) st = (res1, st1)"
      by (cases "transcribe_audio w mdl f (video_language cfg) st")
    have g1: "progress_signals (trace st1) = progress_signals (trace st)"
      using transcribe_audio_signals [of w mdl f "video_language cfg" st] t by simp
    show ?thesis
    proof (cases res1)
      case (Inl e)
      with Cons.prems Some t have "res = Inl e" "p' = p" "st' = st1" by simp_all
      then show ?thesis by (simp add: g1)
    next
      case (Inr r)
      define p1 where "p1 = p\<lparr>current_step := current_step p + 1\<rparr>"
      define st2 where "st2 = emit (Progress (current_step p) (total_steps p)) st1"
      obtain res3 st3 where
        s: "save_result_as_srt w r (video_language cfg) vid True st2 = (res3, st3)"
        by (cases "save_result_as_srt w r (video_language cfg) vid True st2")
      have g3: "progress_signals (trace st3) =
                  progress_signals (trace st) @ [(current_step p, total_steps p)]"
        using save_result_as_srt_signals [of w r "video_language cfg" vid True st2] s
        by (simp add: st2_def signals_emit_progress g1)
      show ?thesis
      proof (cases res3)
        case (Inl e)
        with Cons.prems Some t \<open>res1 = Inr r\<close> s have "res = Inl e" "p' = p1" "st' = st3"
          by (simp_all add: assms(1) print_gui p1_def st2_def)
        then show ?thesis by (simp add: g3 p1_def)
      next
        case (Inr saved)
        define p2 where "p2 = p1\<lparr>current_step := current_step p1 + 1\<rparr>"
        define st4 where "st4 = emit (Progress (current_step p1) (total_steps p1)) st3"
        obtain res5 p3 st5 where
          ta: "translate_all w cfg r vid (translation_languages cfg) p2 st4 = (res5, p3, st5)"
          by (cases "translate_all w cfg r vid (translation_languages cfg) p2 st4")
        have step: "subtitle_files w cfg mdl (f # files) p st =
                      (case res5 of Inl e \<Rightarrow> (Inl e, p3, st5)
                       | Inr u \<Rightarrow> subtitle_files w cfg mdl files p3 st5)"
          using Some t \<open>res1 = Inr r\<close> s Inr ta
          by (simp add: assms(1) print_gui p1_def st2_def p2_def st4_def split: sum.splits)
        note inner = translate_all_signals [OF assms(1) ta]
        have c2: "current_step p2 = c + 2" "total_steps p2 = total_steps p"
          by (simp_all add: p2_def p1_def c_def)
        have g4: "progress_signals (trace st4) =
                    progress_signals (trace st) @ map (\<lambda>k. (k, total_steps p)) [c ..< c + 2]"
          using upt_two [of c 0]
          by (simp add: st4_def p1_def signals_emit_progress g3 c_def)
        have t3: "total_steps p3 = total_steps p"
          using inner by (simp add: c2)
        have lo3: "c + 2 \<le> current_step p3" and hi3: "current_step p3 \<le> c + n"
          using inner by (simp_all add: c2 n_def)
        have "progress_signals (trace st5) =
                progress_signals (trace st4)
                  @ map (\<lambda>k. (k, total_steps p)) [c + 2 ..< current_step p3]"
          using inner by (simp add: c2)
        from signals_join [OF g4 this _ lo3]
        have g5: "progress_signals (trace st5) =
                    progress_signals (trace st)
                      @ map (\<lambda>k. (k, total_steps p)) [c ..< current_step p3]"
          by simp
        show ?thesis
        proof (cases res5)
          case (Inl e)
          with Cons.prems step have "res = Inl e" "p' = p3" "st' = st5" by simp_all
          with t3 lo3 hi3 g5 show ?thesis
            unfolding len n_def [symmetric] c_def [symmetric] by simp
        next
          case (Inr u5)
          with Cons.prems step
          have rest: "subtitle_files w cfg mdl files p3 st5 = (res, p', st')" by simp
          note ih = Cons.IH [OF rest, unfolded n_def [symmetric] t3]
          have c3: "current_step p3 = c + n"
            using inner Inr by (simp add: c2 n_def)
          have lo: "current_step p3 \<le> current_step p'"
            using ih by simp
          have "progress_signals (trace st') =
                  progress_signals (trace st5)
                    @ map (\<lambda>k. (k, total_steps p)) [current_step p3 ..< current_step p']"
            using ih by simp
          from signals_join [OF g5 this _ lo] lo3
          have sig: "progress_signals (trace st') =
                       progress_signals (trace st)
                         @ map (\<lambda>k. (k, total_steps p)) [c ..< current_step p']"
            by simp
          from ih sig lo show ?thesis
            unfolding len n_def [symmetric] c_def [symmetric] c3 by simp
        qed
      qed
    qed
  qed
qed

lemma sorted_signals: "sorted (map fst ((1, 2) # (1, 2) # (2, N) # map (\<lambda>k. (k, N)) [2 ..< N]))"
  by (simp add: comp_def)

lemma subtitle_run_signals:
  assumes "mode cfg = Some ''gui''"
    and "subtitle w cfg st = (res, p', st')"
    and "N = 2 + 2 * length (audio_files cfg)
               + 2 * length (audio_files cfg) * length (translation_languages cfg)"
  shows "\<exists>new rest.
           progress_signals (trace st') = progress_signals (trace st) @ new
           \<and> new @ rest = (1, 2) # (1, 2) # (2, N) # map (\<lambda>k. (k, N)) [2 ..< N]
           \<and> sorted (map fst new)
           \<and> (\<forall>u. res = Inr u \<longrightarrow> rest = [] \<and> total_steps p' = N \<and> current_step p' = N)"
proof -
  define p0 where "p0 = \<lparr>current_step = 1, total_steps = 2\<rparr>"
  define st1 where "st1 = emit (Progress 1 2) st"
  obtain res2 st2 where im: "init_model w (model_size cfg) st1 = (res2, st2)"
    by (cases "init_model w (model_size cfg) st1")
  have s1: "print_and_update_progress (mode cfg) False p0 st = (p0, st1)"
    by (simp add: assms(1) print_gui p0_def st1_def)
  have g2: "progress_signals (trace st2) = progress_signals (trace st) @ [(1, 2)]"
    using init_model_signals [of w "model_size cfg" st1] im
    by (simp add: st1_def signals_emit_progress)
  have srt: "sorted (map fst (new @ rest))"
    if "new @ rest = (1, 2) # (1, 2) # (2, N) # map (\<lambda>k. (k, N)) [2 ..< N]" for new rest
    unfolding that by (rule sorted_signals)
  show ?thesis
  proof (cases res2)
    case (Inl e)
    have "subtitle w cfg st = (Inl e, p0, st2)"
      unfolding subtitle_def p0_def [symmetric] by (simp add: Let_def s1 im Inl)
    with assms(2) have r: "res = Inl e" "st' = st2" by simp_all
    let ?new = "[(1::nat, 2::nat)]"
    let ?rest = "(1, 2) # (2, N) # map (\<lambda>k. (k, N)) [2 ..< N]"
    have a: "progress_signals (trace st') = progress_signals (trace st) @ ?new"
      by (simp add: r g2)
    have b: "?new @ ?rest = (1, 2) # (1, 2) # (2, N) # map (\<lambda>k. (k, N)) [2 ..< N]"
      by simp
    have c: "sorted (map fst ?new)" by simp
    from a b c r(1) show ?thesis by blast
  next
    case (Inr mdl)
    define st3 where "st3 = emit (Progress 1 2) st2"
    define st4 where "st4 = emit (Progress 2 N) st3"
    define p4 where "p4 = \<lparr>current_step = 2, total_steps = N\<rparr>"
    have s3: "print_and_update_progress (mode cfg) True p0 st2
                = (p0\<lparr>current_step := 2\<rparr>, st3)"
      by (simp add: assms(1) print_gui p0_def st3_def)
    have tot0: "total_steps p0 + length (audio_files cfg) * 2
                  + length (audio_files cfg) * length (translation_languages cfg) * 2 = N"
      unfolding assms(3) p0_def by (simp add: ac_simps)
    have s4: "print_and_update_progress (mode cfg) False
                (p0\<lparr>current_step := 2, total_steps := N\<rparr>) st3 = (p4, st4)"
      by (simp add: assms(1) print_gui p0_def p4_def st4_def)
    have run: "subtitle w cfg st = subtitle_files w cfg mdl (audio_files cfg) p4 st4"
      unfolding subtitle_def p0_def [symmetric]
      by (simp add: Let_def s1 im Inr s3 tot0 s4)
    have p4c: "current_step p4 = 2" "total_steps p4 = N"
      by (simp_all add: p4_def)
    have NN: "2 + length (audio_files cfg) * (2 + 2 * length (translation_languages cfg)) = N"
      by (simp add: assms(3) algebra_simps)
    note loop = subtitle_files_signals [OF assms(1) assms(2) [unfolded run], unfolded p4c NN]
    have g4: "progress_signals (trace st4) = progress_signals (trace st) @ [(1, 2), (1, 2), (2, N)]"
      by (simp add: st4_def st3_def signals_emit_progress g2)
    have lo: "2 \<le> current_step p'" and hi: "current_step p' \<le> N"
      using loop by simp_all
    let ?new = "(1, 2) # (1, 2) # (2, N) # map (\<lambda>k. (k, N)) [2 ..< current_step p']"
    let ?rest = "map (\<lambda>k. (k, N)) [current_step p' ..< N]"
    have "progress_signals (trace st') =
            progress_signals (trace st4) @ map (\<lambda>k. (k, N)) [2 ..< current_step p']"
      using loop by simp
    then have a: "progress_signals (trace st') = progress_signals (trace st) @ ?new"
      unfolding g4 by simp
    have b: "?new @ ?rest = (1, 2) # (1, 2) # (2, N) # map (\<lambda>k. (k, N)) [2 ..< N]"
      using upt_join [OF lo hi] by (simp add: map_append [symmetric] del: map_append)
    have "sorted (map fst (?new @ ?rest))"
      using b by (rule srt)
    then have c: "sorted (map fst ?new)"
      unfolding map_append sorted_append by (rule conjunct1)
    have d: "\<forall>u. res = Inr u \<longrightarrow> ?rest = [] \<and> total_steps p' = N \<and> current_step p' = N"
      using loop by simp
    from a b c d show ?thesis by blast
  qed
qed

lemma steps_with_signals_append:
  "steps_with_signals (a @ b) c N
     = steps_with_signals a c N @ steps_with_signals b (c + length a) N"
  by (induction a arbitrary: c) simp_all

lemma filter_steps_with_signals:
  "list_all is_step steps \<Longrightarrow>
   filter (\<lambda>e. \<not> is_load_audio e) (steps_with_signals steps c N) = steps_with_signals steps c N"
proof (induction steps arbitrary: c)
  case Nil
  show ?case by simp
next
  case (Cons e steps)
  then show ?case by (cases e) simp_all
qed

lemma transcribe_audio_trace:
  assumes "transcribe_audio w mdl f l st = (Inr r, st')"
  shows "trace st' = trace st @ [LoadAudio f, Transcribe f (lower l)]"
  using assms
  by (auto simp: transcribe_audio_def Let_def emit_def split: if_splits option.splits sum.splits)

lemma save_result_as_srt_trace:
  assumes "save_result_as_srt w r l v d st = (Inr saved, st')"
  shows "\<exists>content. trace st' = trace st @ [WriteFile saved content]"
  using assms
  by (auto simp: save_result_as_srt_def Let_def emit_def split: option.splits if_splits)

lemma translate_transcribed_result_trace:
  assumes "translate_transcribed_result w r src tgt tr key st = (Inr r2, st')"
  shows "\<exists>t texts. trace st' = trace st @ [TranslateBatch t texts]"
  using assms
  by (auto simp: translate_transcribed_result_def Let_def emit_def split_def
           split: sum.splits translator.splits)

lemma try_model_sizes_trace:
  "\<exists>L. trace (snd (try_model_sizes w sizes st)) = trace st @ L \<and> list_all is_model_event L
       \<and> (sizes \<noteq> [] \<longrightarrow> L \<noteq> [])"
proof (induction sizes arbitrary: st)
  case Nil
  show ?case by simp
next
  case (Cons a sizes)
  define st1 where "st1 = emit (LoadModel a (torch_device w)) st"
  obtain L where L: "trace (snd (try_model_sizes w sizes st1)) = trace st1 @ L"
    "list_all is_model_event L"
    using Cons.IH [of st1] by blast
  have t1: "trace st1 = trace st @ [LoadModel a (torch_device w)]"
    by (simp add: st1_def emit_def)
  show ?case
  proof (cases "load_model w a (torch_device w)")
    case Loaded
    have "trace (snd (try_model_sizes w (a # sizes) st))
            = trace st @ [LoadModel a (torch_device w), WritePref a]"
      using Loaded by (simp add: st1_def [symmetric] save_model_pref_def emit_def t1)
    then show ?thesis by simp
  next
    case OutOfMemory
    have "trace (snd (try_model_sizes w (a # sizes) st))
            = trace st @ LoadModel a (torch_device w) # L"
      using OutOfMemory by (simp add: st1_def [symmetric] L t1)
    then show ?thesis using L(2) by simp
  next
    case (LoadFailed msg)
    have "trace (snd (try_model_sizes w (a # sizes) st))
            = trace st @ LoadModel a (torch_device w) # L"
      using LoadFailed by (simp add: st1_def [symmetric] L t1)
    then show ?thesis using L(2) by simp
  qed
qed

lemma init_model_trace:
  "\<exists>L. trace (snd (init_model w ms st)) = trace st @ L \<and> list_all is_model_event L \<and> L \<noteq> []"
proof (cases "load_model_pref ms st")
  case None
  have "model_sizes \<noteq> []" by (simp add: model_sizes_def)
  with try_model_sizes_trace [of w model_sizes st] None show ?thesis
    by (simp add: init_model_def split_def Let_def)
next
  case (Some pref)
  have "trace (snd (init_model w ms st)) = trace st @ [LoadModel pref (torch_device w)]"
    using Some by (simp add: init_model_def Let_def emit_def split: load_outcome.splits)
  then show ?thesis by simp
qed

lemma translate_all_trace:
  assumes "mode cfg = Some ''gui''"
    and "translate_all w cfg r vid langs p st = (Inr u, p', st')"
  shows "\<exists>steps. length steps = 2 * length langs \<and> list_all is_step steps
           \<and> trace st' = trace st @ steps_with_signals steps (current_step p) (total_steps p)"
  using assms(2)
proof (induction langs arbitrary: p st)
  case Nil
  then show ?case by simp
next
  case (Cons lang langs)
  obtain res1 st1 where t: "translate_transcribed_result w r (video_language cfg) lang
      (translation_service cfg) (translation_service_api_key cfg) st = (res1, st1)"
    by (cases "translate_transcribed_result w r (video_language cfg) lang
      (translation_service cfg) (translation_service_api_key cfg) st")
  obtain r2 where r2: "res1 = Inr r2"
    using Cons.prems t by (cases res1) simp_all
  define p1 where "p1 = p\<lparr>current_step := current_step p + 1\<rparr>"
  define st2 where "st2 = emit (Progress (current_step p) (total_steps p)) st1"
  obtain res3 st3 where s: "save_result_as_srt w r2 lang vid False st2 = (res3, st3)"
    by (cases "save_result_as_srt w r2 lang vid False st2")
  obtain saved where r3: "res3 = Inr saved"
    using Cons.prems t r2 s
    by (cases res3) (simp_all add: assms(1) print_gui p1_def st2_def)
  define p2 where "p2 = p1\<lparr>current_step := current_step p1 + 1\<rparr>"
  define st4 where "st4 = emit (Progress (current_step p1) (total_steps p1)) st3"
  have rest: "translate_all w cfg r vid langs p2 st4 = (Inr u, p', st')"
    using Cons.prems t r2 s r3
    by (simp add: assms(1) print_gui p1_def st2_def p2_def st4_def)
  obtain steps where steps: "length steps = 2 * length langs" "list_all is_step steps"
    "trace st' = trace st4 @ steps_with_signals steps (current_step p2) (total_steps p2)"
    using Cons.IH [OF rest] by blast
  obtain tr texts where e1: "trace st1 = trace st @ [TranslateBatch tr texts]"
    using translate_transcribed_result_trace [OF t [unfolded r2]] by blast
  obtain content where e3: "trace st3 = trace st2 @ [WriteFile saved content]"
    using save_result_as_srt_trace [OF s [unfolded r3]] by blast
  let ?steps = "TranslateBatch tr texts # WriteFile saved content # steps"
  have "trace st' = trace st @ steps_with_signals ?steps (current_step p) (total_steps p)"
    by (simp add: steps(3) st4_def e3 st2_def e1 emit_def p2_def p1_def)
  moreover have "length ?steps = 2 * length (lang # langs)"
    by (simp add: steps(1))
  moreover have "list_all is_step ?steps"
    by (simp add: steps(2))
  ultimately show ?case by blast
qed

lemma subtitle_files_trace:
  assumes "mode cfg = Some ''gui''"
    and "subtitle_files w cfg mdl files p st = (Inr u, p', st')"
  shows "\<exists>R steps.
           trace st' = trace st @ R
           \<and> filter (\<lambda>e. \<not> is_load_audio e) R
               = steps_with_signals steps (current_step p) (total_steps p)
           \<and> length steps = length files * (2 + 2 * length (translation_languages cfg))
           \<and> list_all is_step steps"
  using assms(2)
proof (induction files arbitrary: p st)
  case Nil
  then show ?case by simp
next
  case (Cons f files)
  define n where "n = 2 + 2 * length (translation_languages cfg)"
  obtain vid where vid: "dict_get (vid_file_map cfg) f = Some vid"
    using Cons.prems by (cases "dict_get (vid_file_map cfg) f") simp_all
  obtain res1 st1 where t: "transcribe_audio w mdl f (video_language cfg) st = (res1, st1)"
    by (cases "transcribe_audio w mdl f (video_language cfg) st")
  obtain r where r: "res1 = Inr r"
    using Cons.prems vid t by (cases res1) simp_all
  define p1 where "p1 = p\<lparr>current_step := current_step p + 1\<rparr>"
  define st2 where "st2 = emit (Progress (current_step p) (total_steps p)) st1"
  obtain res3 st3 where s: "save_result_as_srt w r (video_language cfg) vid True st2 = (res3, st3)"
    by (cases "save_result_as_srt w r (video_language cfg) vid True st2")
  obtain saved where r3: "res3 = Inr saved"
    using Cons.prems vid t r s
    by (cases res3) (simp_all add: assms(1) print_gui p1_def st2_def)
  define p2 where "p2 = p1\<lparr>current_step := current_step p1 + 1\<rparr>"
  define st4 where "st4 = emit (Progress (current_step p1) (total_steps p1)) st3"
  obtain res5 p3 st5 where
    ta: "translate_all w cfg r vid (translation_languages cfg) p2 st4 = (res5, p3, st5)"
    by (cases "translate_all w cfg r vid (translation_languages cfg) p2 st4")
  have step: "subtitle_files w cfg mdl (f # files) p st =
                (case res5 of Inl e \<Rightarrow> (Inl e, p3, st5)
                 | Inr u \<Rightarrow> subtitle_files w cfg mdl files p3 st5)"
    using vid t r s r3 ta
    by (simp add: assms(1) print_gui p1_def st2_def p2_def st4_def split: sum.splits)
  obtain u5 where r5: "res5 = Inr u5"
    using Cons.prems step by (cases res5) simp_all
  have rest: "subtitle_files w cfg mdl files p3 st5 = (Inr u, p', st')"
    using Cons.prems step r5 by simp
  note sig = translate_all_signals [OF assms(1) ta]
  have p3: "current_step p3 = current_step p + n" "total_steps p3 = total_steps p"
    using sig r5 by (simp_all add: p2_def p1_def n_def)
  obtain R steps where ih: "trace st' = trace st5 @ R"
    "filter (\<lambda>e. \<not> is_load_audio e) R = steps_with_signals steps (current_step p + n) (total_steps p)"
    "length steps = length files * n" "list_all is_step steps"
    using Cons.IH [OF rest] unfolding p3 n_def by blast
  obtain tsteps where inner: "length tsteps = 2 * length (translation_languages cfg)"
    "list_all is_step tsteps"
    "trace st5 = trace st4 @ steps_with_signals tsteps (current_step p + 2) (total_steps p)"
    using translate_all_trace [OF assms(1) ta [unfolded r5]]
    by (auto simp: p2_def p1_def)
  have e1: "trace st1 = trace st @ [LoadAudio f, Transcribe f (lower (video_language cfg))]"
    using transcribe_audio_trace [OF t [unfolded r]] .
  obtain content where e3: "trace st3 = trace st2 @ [WriteFile saved content]"
    using save_result_as_srt_trace [OF s [unfolded r3]] by blast
  let ?own = "Transcribe f (lower (video_language cfg)) # WriteFile saved content # tsteps"
  let ?R = "LoadAudio f # steps_with_signals ?own (current_step p) (total_steps p) @ R"
  have own: "length ?own = n" "list_all is_step ?own"
    by (simp_all add: inner n_def)
  have tr: "trace st' = trace st @ ?R"
    by (simp add: ih(1) inner(3) st4_def e3 st2_def e1 emit_def p1_def)
  have "filter (\<lambda>e. \<not> is_load_audio e) ?R =
          steps_with_signals ?own (current_step p) (total_steps p)
            @ steps_with_signals steps (current_step p + length ?own) (total_steps p)"
    using filter_steps_with_signals [OF own(2), of "current_step p" "total_steps p"]
    by (simp add: ih(2) n_def inner(1))
  then have fl: "filter (\<lambda>e. \<not> is_load_audio e) ?R =
          steps_with_signals (?own @ steps) (current_step p) (total_steps p)"
    by (simp only: steps_with_signals_append)
  have len: "length (?own @ steps) = length (f # files) * n"
    using own(1) ih(3) by simp
  have all: "list_all is_step (?own @ steps)"
    using own(2) ih(4) by simp
  from tr fl len all show ?case
    unfolding n_def by blast
qed

lemma subtitle_gui_unfold:
  assumes "mode cfg = Some ''gui''"
    and "N = 2 + 2 * length (audio_files cfg)
               + 2 * length (audio_files cfg) * length (translation_languages cfg)"
  shows "subtitle w cfg st =
           (case init_model w (model_size cfg) (emit (Progress 1 2) st) of
              (Inl e, st2) \<Rightarrow> (Inl e, \<lparr>current_step = 1, total_steps = 2\<rparr>, st2)
            | (Inr mdl, st2) \<Rightarrow>
                subtitle_files w cfg mdl (audio_files cfg) \<lparr>current_step = 2, total_steps = N\<rparr>
                  (emit (Progress 2 N) (emit (Progress 1 2) st2)))"
proof -
  define p0 where "p0 = \<lparr>current_step = 1, total_steps = 2\<rparr>"
  define st1 where "st1 = emit (Progress 1 2) st"
  obtain res2 st2 where im: "init_model w (model_size cfg) st1 = (res2, st2)"
    by (cases "init_model w (model_size cfg) st1")
  have s1: "print_and_update_progress (mode cfg) False p0 st = (p0, st1)"
    by (simp add: assms(1) print_gui p0_def st1_def)
  show ?thesis
  proof (cases res2)
    case (Inl e)
    have eq: "subtitle w cfg st = (Inl e, p0, st2)"
      unfolding subtitle_def p0_def [symmetric] by (simp add: Let_def s1 im Inl)
    show ?thesis
      unfolding eq st1_def [symmetric] im Inl p0_def by simp
  next
    case (Inr mdl)
    define st3 where "st3 = emit (Progress 1 2) st2"
    define st4 where "st4 = emit (Progress 2 N) st3"
    define p4 where "p4 = \<lparr>current_step = 2, total_steps = N\<rparr>"
    have s3: "print_and_update_progress (mode cfg) True p0 st2
                = (p0\<lparr>current_step := 2\<rparr>, st3)"
      by (simp add: assms(1) print_gui p0_def st3_def)
    have tot0: "total_steps p0 + length (audio_files cfg) * 2
                  + length (audio_files cfg) * length (translation_languages cfg) * 2 = N"
      unfolding assms(2) p0_def by (simp add: ac_simps)
    have s4: "print_and_update_progress (mode cfg) False
                (p0\<lparr>current_step := 2, total_steps := N\<rparr>) st3 = (p4, st4)"
      by (simp add: assms(1) print_gui p0_def p4_def st4_def)
    have eq: "subtitle w cfg st = subtitle_files w cfg mdl (audio_files cfg) p4 st4"
      unfolding subtitle_def p0_def [symmetric]
      by (simp add: Let_def s1 im Inr s3 tot0 s4)
    show ?thesis
      unfolding eq st1_def [symmetric] im Inr p4_def st4_def st3_def by simp
  qed
qed

subsection \<open>Configuration errors\<close>

text \<open>
  Claim C8. When the declared source language, in lower case, is not a key of the
  transcription vocabulary, \<^verbatim>\<open>transcribe_audio\<close> raises the unsupported-language
  exception and leaves the state as it was: the audio is not loaded and the transcription
  engine is not called, whatever the model.
\<close>

theorem transcribe_audio_unsupported_language:
  assumes "lower language \<notin> set (dict_keys (TRANSCRIPTION_SUPPORTED_LANGS w))"
  shows "transcribe_audio w mdl audio_file language st =
           (Inl (Exception unsupported_language_message), st)"
  using assms by (simp add: transcribe_audio_def)

theorem transcribe_audio_unsupported_language_witness:
  "lower ''Klingon'' \<notin> set (dict_keys (TRANSCRIPTION_SUPPORTED_LANGS demo_world)) \<and>
   transcribe_audio demo_world (Some (Model ''tiny'')) ''tmp/a.wav'' ''Klingon'' initial_state =
     (Inl (Exception unsupported_language_message), initial_state)"
proof -
  have h: "lower ''Klingon'' \<notin> set (dict_keys (TRANSCRIPTION_SUPPORTED_LANGS demo_world))"
    by code_simp
  show ?thesis
    using h transcribe_audio_unsupported_language [OF h] by simp
qed

text \<open>
  Claim C7. With a provider other than \<^verbatim>\<open>"google"\<close> and no API key,
  \<^verbatim>\<open>translate_transcribed_result\<close> raises an exception of \<^verbatim>\<open>init_translator\<close>; with a
  provider outside \<^verbatim>\<open>SUPPORTED_TRANSLATORS\<close> it raises the unsupported-provider exception.
  In both cases the state is unchanged: \<^verbatim>\<open>translate_batch\<close> has not been called.
\<close>

theorem translate_configuration_errors:
  "(translator \<noteq> ''google'' \<and> api_key = None \<longrightarrow>
      (\<exists>msg. translate_transcribed_result w transcribed_result transcribed_language
                target_language translator api_key st = (Inl (Exception msg), st)))
   \<and> (translator \<notin> set (SUPPORTED_TRANSLATORS w) \<longrightarrow>
        translate_transcribed_result w transcribed_result transcribed_language
          target_language translator api_key st
        = (Inl (Exception unsupported_translator_message), st))"
  by (simp add: translate_transcribed_result_def init_translator_def)

theorem translate_configuration_errors_witness:
  "translate_transcribed_result demo_world demo_transcript ''english'' ''spanish'' ''deepl'' None
     initial_state = (Inl (Exception api_key_message), initial_state)
   \<and> translate_transcribed_result demo_world demo_transcript ''english'' ''spanish'' ''bing''
        (Some ''secret'') initial_state
      = (Inl (Exception unsupported_translator_message), initial_state)"
proof -
  have a: "''deepl'' \<noteq> ''google'' \<and> (None :: string option) = None" by simp
  have b: "''bing'' \<notin> set (SUPPORTED_TRANSLATORS demo_world)" by code_simp
  have c: "''deepl'' \<in> set (SUPPORTED_TRANSLATORS demo_world)" by code_simp
  from a translate_configuration_errors
         [of "''deepl''" None demo_world demo_transcript "''english''" "''spanish''" initial_state]
  obtain msg where m: "translate_transcribed_result demo_world demo_transcript ''english''
      ''spanish'' ''deepl'' None initial_state = (Inl (Exception msg), initial_state)"
    by blast
  have "msg = api_key_message"
    using m c by (simp add: translate_transcribed_result_def init_translator_def)
  with m b translate_configuration_errors
         [of "''bing''" "Some ''secret''" demo_world demo_transcript "''english''" "''spanish''"
            initial_state]
  show ?thesis by simp
qed

subsection \<open>A language without an ISO code\<close>

text \<open>
  Claim C10, as stated, fails: for a language of neither vocabulary the writer does not
  return a name containing \<^verbatim>\<open>None\<close>; it raises \<^verbatim>\<open>TypeError\<close> and writes nothing.
\<close>

theorem save_result_as_srt_unknown_language_counterexample:
  "lower ''klingon'' \<notin> set (dict_keys (TRANSCRIPTION_SUPPORTED_LANGS demo_world)) \<and>
   lower ''klingon'' \<notin> set (dict_keys (TRANSLATION_SUPPORTED_LANGS demo_world)) \<and>
   save_result_as_srt demo_world demo_transcript ''klingon'' ''v/a.mp4'' False initial_state
     = (Inl TypeError, initial_state)"
  by code_simp

text \<open>
  Claim C10, amended. When the language, in lower case, is a key of neither vocabulary,
  \<^verbatim>\<open>get_lang_iso_code\<close> yields \<^verbatim>\<open>None\<close> and \<^verbatim>\<open>save_result_as_srt\<close> raises
  \<^verbatim>\<open>TypeError\<close> while it builds the file name; the state is unchanged, so no file is written.
\<close>

theorem save_result_as_srt_unknown_language:
  assumes "lower target_language \<notin> set (dict_keys (TRANSCRIPTION_SUPPORTED_LANGS w))"
    and "lower target_language \<notin> set (dict_keys (TRANSLATION_SUPPORTED_LANGS w))"
  shows "get_lang_iso_code w (lower target_language) = None \<and>
         save_result_as_srt w result target_language video_file_name default_srt_file st
           = (Inl TypeError, st)"
proof -
  have "get_lang_iso_code w (lower target_language) = None"
    using assms by (simp add: get_lang_iso_code_def dict_get_None [symmetric])
  then show ?thesis
    by (simp add: save_result_as_srt_def)
qed

theorem save_result_as_srt_unknown_language_witness:
  "get_lang_iso_code demo_world (lower ''Klingon'') = None \<and>
   save_result_as_srt demo_world demo_transcript ''Klingon'' ''v/a.mp4'' True initial_state
     = (Inl TypeError, initial_state)"
proof -
  have a: "lower ''Klingon'' \<notin> set (dict_keys (TRANSCRIPTION_SUPPORTED_LANGS demo_world))"
    by code_simp
  have b: "lower ''Klingon'' \<notin> set (dict_keys (TRANSLATION_SUPPORTED_LANGS demo_world))"
    by code_simp
  show ?thesis
    using save_result_as_srt_unknown_language [OF a b] by simp
qed

subsection \<open>Language Acquisition Service\<close>

text \<open>
  Claim C9. A forced model size is the only size \<^verbatim>\<open>init_model\<close> tries to load, and it is
  the model returned when it loads. Without a forced size, a persisted preference is the
  only size tried. Without either, the sizes of the fixed list are tried in its order, each
  size that does not load is passed over, the first size that loads is returned and written
  to the preference file, and no later size is tried; when none loads the result is
  \<^verbatim>\<open>None\<close> after every size of the list has been tried once.
\<close>

theorem init_model_precedence:
  "(snd (init_model w (Some forced) st) = emit (LoadModel forced (torch_device w)) st
    \<and> (load_model w forced (torch_device w) = Loaded \<longrightarrow>
         fst (init_model w (Some forced) st) = Inr (Some (Model forced))))
   \<and> (model_pref st = Some pref \<longrightarrow>
        snd (init_model w None st) = emit (LoadModel pref (torch_device w)) st
        \<and> (load_model w pref (torch_device w) = Loaded \<longrightarrow>
             fst (init_model w None st) = Inr (Some (Model pref))))
   \<and> (model_pref st = None \<longrightarrow>
        init_model w None st =
          (case find (\<lambda>s. load_model w s (torch_device w) = Loaded) model_sizes of
             None \<Rightarrow>
               (Inr None,
                st\<lparr>trace := trace st @ map (\<lambda>s. LoadModel s (torch_device w)) model_sizes\<rparr>)
           | Some sz \<Rightarrow>
               (Inr (Some (Model sz)),
                st\<lparr>trace := trace st
                       @ map (\<lambda>s. LoadModel s (torch_device w))
                           (takeWhile (\<lambda>s. load_model w s (torch_device w) \<noteq> Loaded) model_sizes
                            @ [sz])
                       @ [WritePref sz],
                   model_pref := Some sz\<rparr>)))"
proof (intro conjI impI)
  show "snd (init_model w (Some forced) st) = emit (LoadModel forced (torch_device w)) st"
    by (simp add: init_model_def load_model_pref_def Let_def split: load_outcome.splits)
  show "fst (init_model w (Some forced) st) = Inr (Some (Model forced))"
    if "load_model w forced (torch_device w) = Loaded"
    using that by (simp add: init_model_def load_model_pref_def Let_def)
  show "snd (init_model w None st) = emit (LoadModel pref (torch_device w)) st"
    if "model_pref st = Some pref"
    using that by (simp add: init_model_def load_model_pref_def Let_def split: load_outcome.splits)
  show "fst (init_model w None st) = Inr (Some (Model pref))"
    if "model_pref st = Some pref" "load_model w pref (torch_device w) = Loaded"
    using that by (simp add: init_model_def load_model_pref_def Let_def)
  show "init_model w None st =
          (case find (\<lambda>s. load_model w s (torch_device w) = Loaded) model_sizes of
             None \<Rightarrow>
               (Inr None,
                st\<lparr>trace := trace st @ map (\<lambda>s. LoadModel s (torch_device w)) model_sizes\<rparr>)
           | Some sz \<Rightarrow>
               (Inr (Some (Model sz)),
                st\<lparr>trace := trace st
                       @ map (\<lambda>s. LoadModel s (torch_device w))
                           (takeWhile (\<lambda>s. load_model w s (torch_device w) \<noteq> Loaded) model_sizes
                            @ [sz])
                       @ [WritePref sz],
                   model_pref := Some sz\<rparr>))"
    if "model_pref st = None"
    using that
    by (simp add: init_model_def load_model_pref_def try_model_sizes_result split: option.splits)
qed

theorem init_model_precedence_witness:
  "init_model demo_world (Some ''tiny'') initial_state
     = (Inr (Some (Model ''tiny'')), \<lparr>trace = [LoadModel ''tiny'' Cpu], model_pref = None\<rparr>)
   \<and> init_model demo_world None \<lparr>trace = [], model_pref = Some ''tiny''\<rparr>
     = (Inr (Some (Model ''tiny'')),
        \<lparr>trace = [LoadModel ''tiny'' Cpu], model_pref = Some ''tiny''\<rparr>)
   \<and> init_model demo_world None initial_state
     = (Inr (Some (Model ''tiny'')),
        \<lparr>trace = [LoadModel ''large-v3-turbo'' Cpu, LoadModel ''large-v3'' Cpu,
                  LoadModel ''large-v2'' Cpu, LoadModel ''large'' Cpu, LoadModel ''medium'' Cpu,
                  LoadModel ''small'' Cpu, LoadModel ''base'' Cpu, LoadModel ''tiny'' Cpu,
                  WritePref ''tiny''],
         model_pref = Some ''tiny''\<rparr>)"
proof -
  have dev: "torch_device demo_world = Cpu" by code_simp
  have ok: "load_model demo_world ''tiny'' Cpu = Loaded" by code_simp
  have fnd: "find (\<lambda>s. load_model demo_world s Cpu = Loaded) model_sizes = Some ''tiny''"
    by code_simp
  have tried: "takeWhile (\<lambda>s. load_model demo_world s Cpu \<noteq> Loaded) model_sizes
                 = [''large-v3-turbo'', ''large-v3'', ''large-v2'', ''large'', ''medium'',
                    ''small'', ''base'']"
    by code_simp
  have a: "init_model demo_world (Some ''tiny'') initial_state
     = (Inr (Some (Model ''tiny'')), \<lparr>trace = [LoadModel ''tiny'' Cpu], model_pref = None\<rparr>)"
    using init_model_precedence [of demo_world "''tiny''" initial_state] dev ok
    by (simp add: prod_eq_iff emit_def initial_state_def)
  have b: "init_model demo_world None \<lparr>trace = [], model_pref = Some ''tiny''\<rparr>
     = (Inr (Some (Model ''tiny'')),
        \<lparr>trace = [LoadModel ''tiny'' Cpu], model_pref = Some ''tiny''\<rparr>)"
    using init_model_precedence
            [of demo_world _ "\<lparr>trace = [], model_pref = Some ''tiny''\<rparr>" "''tiny''"] dev ok
    by (simp add: prod_eq_iff emit_def)
  have c: "init_model demo_world None initial_state
     = (Inr (Some (Model ''tiny'')),
        \<lparr>trace = [LoadModel ''large-v3-turbo'' Cpu, LoadModel ''large-v3'' Cpu,
                  LoadModel ''large-v2'' Cpu, LoadModel ''large'' Cpu, LoadModel ''medium'' Cpu,
                  LoadModel ''small'' Cpu, LoadModel ''base'' Cpu, LoadModel ''tiny'' Cpu,
                  WritePref ''tiny''],
         model_pref = Some ''tiny''\<rparr>)"
    using init_model_precedence [of demo_world _ initial_state] dev fnd tried
    by (simp add: initial_state_def)
  from a b c show ?thesis by simp
qed

subsection \<open>Translation Adapter\<close>

text \<open>
  Claim C3. Whenever \<^verbatim>\<open>translate_transcribed_result\<close> returns a result for a
  transcription result (a \<open>dict\<close>, so its keys are distinct), the result has the same ids
  in the same order, and the same start and end time at every id; the entries have no field
  other than these two and the text.
\<close>

theorem translated_result_keeps_ids_and_times:
  assumes "distinct (dict_keys transcribed_result)"
    and "translate_transcribed_result w transcribed_result transcribed_language target_language
           translator api_key st = (Inr translated_result, st')"
  shows "dict_keys translated_result = dict_keys transcribed_result
         \<and> map (\<lambda>(i, obj). start_time obj) translated_result
             = map (\<lambda>(i, obj). start_time obj) transcribed_result
         \<and> map (\<lambda>(i, obj). end_time obj) translated_result
             = map (\<lambda>(i, obj). end_time obj) transcribed_result"
proof -
  let ?tr = "map (\<lambda>(i, obj). (i, (start_time obj, end_time obj))) transcribed_result"
  obtain results where f: "fill_texts ?tr results = Inr translated_result"
    using translate_transcribed_result_Inr [OF assms] by blast
  from fill_texts_frame [OF f]
  have k: "dict_keys translated_result = dict_keys ?tr"
    and t: "map (\<lambda>(i, obj). (start_time obj, end_time obj)) translated_result = map snd ?tr"
    by simp_all
  have k': "dict_keys ?tr = dict_keys transcribed_result"
    by (simp add: dict_keys_def comp_def case_prod_unfold)
  have "map fst (map (\<lambda>(i, obj). (start_time obj, end_time obj)) translated_result)
          = map fst (map snd ?tr)"
    using t by simp
  then have s: "map (\<lambda>(i, obj). start_time obj) translated_result
             = map (\<lambda>(i, obj). start_time obj) transcribed_result"
    by (simp add: comp_def case_prod_unfold)
  have "map snd (map (\<lambda>(i, obj). (start_time obj, end_time obj)) translated_result)
          = map snd (map snd ?tr)"
    using t by simp
  then have e: "map (\<lambda>(i, obj). end_time obj) translated_result
             = map (\<lambda>(i, obj). end_time obj) transcribed_result"
    by (simp add: comp_def case_prod_unfold)
  from k k' s e show ?thesis by simp
qed

theorem translated_result_keeps_ids_and_times_witness:
  "dict_keys demo_translation = dict_keys demo_transcript
   \<and> map (\<lambda>(i, obj). start_time obj) demo_translation
       = map (\<lambda>(i, obj). start_time obj) demo_transcript
   \<and> map (\<lambda>(i, obj). end_time obj) demo_translation
       = map (\<lambda>(i, obj). end_time obj) demo_transcript"
proof -
  have d: "distinct (dict_keys demo_transcript)" by code_simp
  have r: "translate_transcribed_result demo_world demo_transcript ''English'' ''spanish''
             ''google'' None initial_state
           = (Inr demo_translation,
              \<lparr>trace = [TranslateBatch (GoogleTranslator ''English'' ''spanish'')
                          [text_of ''hello'', text_of ''world'']],
               model_pref = None\<rparr>)"
    by code_simp
  show ?thesis
    by (rule translated_result_keeps_ids_and_times [OF d r])
qed

text \<open>
  Claim C1, as stated, fails: when the provider returns a list shorter than the batch, the
  adapter does not fill the unmatched positions; \<^verbatim>\<open>pop(0)\<close> on the exhausted list raises
  \<^verbatim>\<open>IndexError\<close> and there is no output.
\<close>

theorem translate_short_list_counterexample:
  "translate_batch short_provider_world (GoogleTranslator ''English'' ''spanish'')
     [text_of ''hello'', text_of ''world''] = Inr []
   \<and> fst (translate_transcribed_result short_provider_world demo_transcript ''English''
            ''spanish'' ''google'' None initial_state) = Inl IndexError"
  by code_simp

text \<open>
  Claim C1, amended. Let the provider be set up and return a list \<open>results\<close> for the batch
  of the \<open>n\<close> texts. When \<open>results\<close> has at least \<open>n\<close> elements the output has exactly
  \<open>n\<close> entries, and entry \<open>i\<close> carries the \<open>i\<close>-th result, or the text \<^verbatim>\<open>"."\<close> when that
  result is \<^verbatim>\<open>None\<close>. When \<open>results\<close> has fewer than \<open>n\<close> elements the adapter raises
  \<^verbatim>\<open>IndexError\<close>.
\<close>

theorem translate_placeholder_or_index_error:
  assumes "distinct (dict_keys transcribed_result)"
    and "init_translator w translator transcribed_language target_language api_key = Inr tr"
    and "\<forall>n. tr \<noteq> PlainName n"
    and "translate_batch w tr (map (\<lambda>(i, obj). entry_text obj) transcribed_result) = Inr results"
  shows "(length transcribed_result \<le> length results \<longrightarrow>
            (\<exists>out. fst (translate_transcribed_result w transcribed_result transcribed_language
                          target_language translator api_key st) = Inr out
                   \<and> length out = length transcribed_result
                   \<and> (\<forall>i < length transcribed_result.
                         entry_text (snd (out ! i))
                           = (case results ! i of Some t \<Rightarrow> t | None \<Rightarrow> text_of ''.''))))
         \<and> (length results < length transcribed_result \<longrightarrow>
              fst (translate_transcribed_result w transcribed_result transcribed_language
                     target_language translator api_key st) = Inl IndexError)"
proof (intro conjI impI)
  let ?tr = "map (\<lambda>(i, obj). (i, (start_time obj, end_time obj))) transcribed_result"
  note run = translate_transcribed_result_run [OF assms, of st]
  show "fst (translate_transcribed_result w transcribed_result transcribed_language
               target_language translator api_key st) = Inl IndexError"
    if "length results < length transcribed_result"
    using that by (simp add: run fill_texts_short)
  show "\<exists>out. fst (translate_transcribed_result w transcribed_result transcribed_language
                     target_language translator api_key st) = Inr out
              \<and> length out = length transcribed_result
              \<and> (\<forall>i < length transcribed_result.
                    entry_text (snd (out ! i))
                      = (case results ! i of Some t \<Rightarrow> t | None \<Rightarrow> text_of ''.''))"
    if le: "length transcribed_result \<le> length results"
  proof -
    from le have "length ?tr \<le> length results" by simp
    from fill_texts_enough [OF this]
    obtain out where f: "fill_texts ?tr results = Inr out" by blast
    have "length out = length transcribed_result"
      using fill_texts_frame [OF f] by simp
    moreover have "\<forall>i < length transcribed_result.
                     entry_text (snd (out ! i))
                       = (case results ! i of Some t \<Rightarrow> t | None \<Rightarrow> text_of ''.'')"
      using fill_texts_text [OF f] by simp
    ultimately show ?thesis
      by (simp add: run f)
  qed
qed

theorem translate_placeholder_or_index_error_witness:
  "(\<exists>out. fst (translate_transcribed_result demo_world demo_transcript ''English'' ''spanish''
                 ''google'' None initial_state) = Inr out
          \<and> length out = 2
          \<and> entry_text (snd (out ! 0)) = text_of ''~hello''
          \<and> entry_text (snd (out ! 1)) = text_of ''.'')
   \<and> fst (translate_transcribed_result short_provider_world demo_transcript ''English''
            ''spanish'' ''google'' None initial_state) = Inl IndexError"
proof -
  have d: "distinct (dict_keys demo_transcript)" by code_simp
  have n: "\<forall>n. GoogleTranslator ''English'' ''spanish'' \<noteq> PlainName n" by simp
  have len: "length demo_transcript = 2" by (simp add: demo_transcript_def)
  have i1: "init_translator demo_world ''google'' ''English'' ''spanish'' None
              = Inr (GoogleTranslator ''English'' ''spanish'')"
    by code_simp
  have b1: "translate_batch demo_world (GoogleTranslator ''English'' ''spanish'')
              (map (\<lambda>(i, obj). entry_text obj) demo_transcript) = Inr [Some (text_of ''~hello''), None]"
    by code_simp
  have i2: "init_translator short_provider_world ''google'' ''English'' ''spanish'' None
              = Inr (GoogleTranslator ''English'' ''spanish'')"
    by code_simp
  have b2: "translate_batch short_provider_world (GoogleTranslator ''English'' ''spanish'')
              (map (\<lambda>(i, obj). entry_text obj) demo_transcript) = Inr []"
    by code_simp
  from translate_placeholder_or_index_error [OF d i1 n b1, of initial_state] len
  obtain out where o: "fst (translate_transcribed_result demo_world demo_transcript ''English''
                              ''spanish'' ''google'' None initial_state) = Inr out"
    and l: "length out = 2"
    and t: "\<forall>i<2. entry_text (snd (out ! i))
                    = (case [Some (text_of ''~hello''), None] ! i of Some t \<Rightarrow> t | None \<Rightarrow> text_of ''.'')"
    by auto
  from t have "entry_text (snd (out ! 0)) = text_of ''~hello''" "entry_text (snd (out ! 1)) = text_of ''.''"
    by simp_all
  with o l have first: "\<exists>out. fst (translate_transcribed_result demo_world demo_transcript
                                  ''English'' ''spanish'' ''google'' None initial_state) = Inr out
          \<and> length out = 2
          \<and> entry_text (snd (out ! 0)) = text_of ''~hello''
          \<and> entry_text (snd (out ! 1)) = text_of ''.''"
    by blast
  from translate_placeholder_or_index_error [OF d i2 n b2, of initial_state] len
  have "fst (translate_transcribed_result short_provider_world demo_transcript ''English''
               ''spanish'' ''google'' None initial_state) = Inl IndexError"
    by simp
  with first show ?thesis by blast
qed

subsection \<open>Segment Normalizer\<close>

text \<open>
  Claim C4. Let the \<open>n\<close> raw segments carry their zero-based sequence index as id (segment
  \<open>i\<close> has id \<open>i\<close>), with times that \<^verbatim>\<open>format_timestamp\<close> accepts. Then
  \<^verbatim>\<open>post_process_result_for_srt\<close> returns a mapping of exactly \<open>n\<close> entries whose ids are
  \<open>1, \<dots>, n\<close> in this order; entry \<open>i\<close> comes from segment \<open>i\<close>: its times are the
  formatted start and end of the segment, and its text is the segment's text stripped, that
  is the segment's text without a leading and a trailing run of whitespace, neither beginning
  nor ending with whitespace.
\<close>

theorem post_process_result_for_srt_ids_and_texts:
  assumes "map seg_id segments = map int [0..<length segments]"
    and "\<forall>seg \<in> set segments. format_timestamp (seg_start seg) \<noteq> Inl OverflowError
                             \<and> format_timestamp (seg_end seg) \<noteq> Inl OverflowError"
  shows "\<exists>new_result.
           post_process_result_for_srt segments = Inr new_result
           \<and> length new_result = length segments
           \<and> dict_keys new_result = map int [1..<Suc (length segments)]
           \<and> (\<forall>i < length segments.
                 entry_text (snd (new_result ! i)) = strip (seg_text (segments ! i))
                 \<and> format_timestamp (seg_start (segments ! i)) = Inr (start_time (snd (new_result ! i)))
                 \<and> format_timestamp (seg_end (segments ! i)) = Inr (end_time (snd (new_result ! i)))
                 \<and> (\<exists>pre suf. seg_text (segments ! i) = pre @ entry_text (snd (new_result ! i)) @ suf
                        \<and> list_all isspace pre \<and> list_all isspace suf)
                 \<and> (entry_text (snd (new_result ! i)) \<noteq> [] \<longrightarrow>
                      \<not> isspace (hd (entry_text (snd (new_result ! i))))
                      \<and> \<not> isspace (last (entry_text (snd (new_result ! i))))))"
proof -
  have ids1: "map (\<lambda>seg. seg_id seg + 1) segments = map int [1..<Suc (length segments)]"
  proof -
    have "map (\<lambda>seg. seg_id seg + 1) segments = map (\<lambda>k. k + 1) (map seg_id segments)"
      by (simp add: comp_def)
    also have "\<dots> = map (\<lambda>n. int n + 1) [0..<length segments]"
      by (simp add: assms(1) comp_def)
    also have "\<dots> = map int (map Suc [0..<length segments])"
      by (simp add: comp_def)
    also have "\<dots> = map int [1..<Suc (length segments)]"
      by (simp only: map_Suc_upt One_nat_def)
    finally show ?thesis .
  qed
  have "distinct (map int [1..<Suc (length segments)])"
    by (simp add: distinct_map)
  then have d: "distinct (dict_keys [] @ map (\<lambda>seg. seg_id seg + 1) segments)"
    by (simp add: ids1 dict_keys_def)
  have res: "post_process_result_for_srt segments = Inr (map entry_of_segment segments)"
    using post_process_segments_distinct [OF d assms(2)]
    by (simp add: post_process_result_for_srt_def)
  have keys: "dict_keys (map entry_of_segment segments) = map int [1..<Suc (length segments)]"
    using ids1 by (simp add: dict_keys_def comp_def entry_of_segment_def)
  have each: "entry_text (snd (map entry_of_segment segments ! i)) = strip (seg_text (segments ! i))
        \<and> format_timestamp (seg_start (segments ! i))
            = Inr (start_time (snd (map entry_of_segment segments ! i)))
        \<and> format_timestamp (seg_end (segments ! i))
            = Inr (end_time (snd (map entry_of_segment segments ! i)))
        \<and> (\<exists>pre suf. seg_text (segments ! i)
                        = pre @ entry_text (snd (map entry_of_segment segments ! i)) @ suf
               \<and> list_all isspace pre \<and> list_all isspace suf)
        \<and> (entry_text (snd (map entry_of_segment segments ! i)) \<noteq> [] \<longrightarrow>
             \<not> isspace (hd (entry_text (snd (map entry_of_segment segments ! i))))
             \<and> \<not> isspace (last (entry_text (snd (map entry_of_segment segments ! i)))))"
    if i: "i < length segments" for i
  proof -
    have m: "segments ! i \<in> set segments" using i by simp
    obtain st where st: "format_timestamp (seg_start (segments ! i)) = Inr st"
      using assms(2) m format_timestamp_cases by blast
    obtain en where en: "format_timestamp (seg_end (segments ! i)) = Inr en"
      using assms(2) m format_timestamp_cases by blast
    show ?thesis
      using i strip_decomposition [of "seg_text (segments ! i)"]
            strip_edges [of "seg_text (segments ! i)"]
      by (simp add: entry_of_segment_def st en)
  qed
  have all: "\<forall>i < length segments.
        entry_text (snd (map entry_of_segment segments ! i)) = strip (seg_text (segments ! i))
        \<and> format_timestamp (seg_start (segments ! i))
            = Inr (start_time (snd (map entry_of_segment segments ! i)))
        \<and> format_timestamp (seg_end (segments ! i))
            = Inr (end_time (snd (map entry_of_segment segments ! i)))
        \<and> (\<exists>pre suf. seg_text (segments ! i)
                        = pre @ entry_text (snd (map entry_of_segment segments ! i)) @ suf
               \<and> list_all isspace pre \<and> list_all isspace suf)
        \<and> (entry_text (snd (map entry_of_segment segments ! i)) \<noteq> [] \<longrightarrow>
             \<not> isspace (hd (entry_text (snd (map entry_of_segment segments ! i))))
             \<and> \<not> isspace (last (entry_text (snd (map entry_of_segment segments ! i)))))"
    using each by blast
  have len: "length (map entry_of_segment segments) = length segments"
    by simp
  from res len keys all show ?thesis
    by blast
qed

theorem post_process_result_for_srt_ids_and_texts_witness:
  "post_process_result_for_srt demo_segments = Inr demo_transcript
   \<and> dict_keys demo_transcript = [1, 2]
   \<and> entry_text (snd (demo_transcript ! 0)) = strip (12288 # text_of ''hello'' @ [160])
   \<and> entry_text (snd (demo_transcript ! 1)) = strip (text_of ''world'')"
proof -
  have ids: "map seg_id demo_segments = map int [0..<length demo_segments]"
    by code_simp
  have rg: "\<forall>seg \<in> set demo_segments.
              format_timestamp (seg_start seg) \<noteq> Inl OverflowError
              \<and> format_timestamp (seg_end seg) \<noteq> Inl OverflowError"
    by code_simp
  have r: "post_process_result_for_srt demo_segments = Inr demo_transcript"
    by code_simp
  have len: "length demo_segments = 2"
    by (simp add: demo_segments_def)
  have up: "map int [1..<Suc 2] = [1, 2]"
    by code_simp
  have t0: "seg_text (demo_segments ! 0) = 12288 # text_of ''hello'' @ [160]"
    by (simp add: demo_segments_def)
  have t1: "seg_text (demo_segments ! 1) = text_of ''world''"
    by (simp add: demo_segments_def)
  from post_process_result_for_srt_ids_and_texts [OF ids rg] r
  have k: "dict_keys demo_transcript = map int [1..<Suc (length demo_segments)]"
    and t: "\<forall>i < length demo_segments.
              entry_text (snd (demo_transcript ! i)) = strip (seg_text (demo_segments ! i))"
    by auto
  from t len have "entry_text (snd (demo_transcript ! 0)) = strip (seg_text (demo_segments ! 0))"
    and "entry_text (snd (demo_transcript ! 1)) = strip (seg_text (demo_segments ! 1))"
    by simp_all
  with r k len up t0 t1 show ?thesis
    by simp
qed

subsection \<open>Timestamp Formatter\<close>




subsection \<open>Pipeline Orchestrator: a run without a model\<close>

text \<open>
  Claim C2, as stated, fails: when no size of the fallback list loads, \<^verbatim>\<open>init_model\<close>
  returns \<^verbatim>\<open>None\<close> and \<^verbatim>\<open>subtitle\<close> goes on; the audio of the first input is loaded
  before the run ends with \<^verbatim>\<open>AttributeError\<close>.
\<close>

theorem subtitle_without_model_counterexample:
  "init_model no_model_world (model_size demo_cfg) initial_state
     = (Inr None,
        \<lparr>trace = [LoadModel ''large-v3-turbo'' Cpu, LoadModel ''large-v3'' Cpu,
                  LoadModel ''large-v2'' Cpu, LoadModel ''large'' Cpu, LoadModel ''medium'' Cpu,
                  LoadModel ''small'' Cpu, LoadModel ''base'' Cpu, LoadModel ''tiny'' Cpu],
         model_pref = None\<rparr>)
   \<and> subtitle no_model_world demo_cfg initial_state
     = (Inl AttributeError, \<lparr>current_step = 2, total_steps = 6\<rparr>,
        \<lparr>trace = [Progress 1 2,
                  LoadModel ''large-v3-turbo'' Cpu, LoadModel ''large-v3'' Cpu,
                  LoadModel ''large-v2'' Cpu, LoadModel ''large'' Cpu, LoadModel ''medium'' Cpu,
                  LoadModel ''small'' Cpu, LoadModel ''base'' Cpu, LoadModel ''tiny'' Cpu,
                  Progress 1 2, Progress 2 6, LoadAudio ''tmp/a.wav''],
         model_pref = None\<rparr>)"
  by code_simp

text \<open>
  Claim C2, amended. When the fallback list is exhausted without a model, \<^verbatim>\<open>subtitle\<close>
  does not test the result of \<^verbatim>\<open>init_model\<close>. With no audio input the run ends
  normally. Otherwise it ends with an exception at the first input: \<^verbatim>\<open>KeyError\<close> when
  the input has no video in \<^verbatim>\<open>vid_file_map\<close>, the unsupported-language exception when
  the language is not in the transcription vocabulary, and else \<^verbatim>\<open>AttributeError\<close>, after
  the audio of that first input has been loaded. Beyond the attempts to load a model and
  this one \<^verbatim>\<open>load_audio\<close>, the run calls nothing: the transcription engine is never
  called, no translation is requested and no file is written.
\<close>

theorem subtitle_without_model:
  assumes "model_size cfg = None"
    and "model_pref st = None"
    and "\<forall>s \<in> set model_sizes. load_model w s (torch_device w) \<noteq> Loaded"
  shows "fst (subtitle w cfg st) =
           (case audio_files cfg of
              [] \<Rightarrow> Inr ()
            | f # rest \<Rightarrow>
                (case dict_get (vid_file_map cfg) f of
                   None \<Rightarrow> Inl KeyError
                 | Some vid \<Rightarrow>
                     if lower (video_language cfg)
                          \<in> set (dict_keys (TRANSCRIPTION_SUPPORTED_LANGS w))
                     then Inl AttributeError
                     else Inl (Exception unsupported_language_message)))
         \<and> external_calls (trace (snd (snd (subtitle w cfg st)))) =
             external_calls (trace st)
               @ map (\<lambda>s. LoadModel s (torch_device w)) model_sizes
               @ (case audio_files cfg of
                    [] \<Rightarrow> []
                  | f # rest \<Rightarrow>
                      (case dict_get (vid_file_map cfg) f of
                         None \<Rightarrow> []
                       | Some vid \<Rightarrow>
                           if lower (video_language cfg)
                                \<in> set (dict_keys (TRANSCRIPTION_SUPPORTED_LANGS w))
                           then [LoadAudio f]
                           else []))"
proof -
  define p0 where "p0 = \<lparr>current_step = 1, total_steps = 2\<rparr>"
  obtain p1 st1 where s1: "print_and_update_progress (mode cfg) False p0 st = (p1, st1)"
    by (cases "print_and_update_progress (mode cfg) False p0 st")
  define st2 where
    "st2 = st1\<lparr>trace := trace st1 @ map (\<lambda>s. LoadModel s (torch_device w)) model_sizes\<rparr>"
  obtain p2 st3 where s3: "print_and_update_progress (mode cfg) True p1 st2 = (p2, st3)"
    by (cases "print_and_update_progress (mode cfg) True p1 st2")
  define p3 where
    "p3 = p2\<lparr>total_steps :=
               total_steps p2 + (length (audio_files cfg) * 2)
                 + (length (audio_files cfg) * length (translation_languages cfg) * 2)\<rparr>"
  obtain p4 st4 where s4: "print_and_update_progress (mode cfg) False p3 st3 = (p4, st4)"
    by (cases "print_and_update_progress (mode cfg) False p3 st3")
  have c1: "external_calls (trace st1) = external_calls (trace st)" "model_pref st1 = None"
    using print_and_update_progress_calls [of "mode cfg" False p0 st] s1 assms(2) by simp_all
  have im: "init_model w (model_size cfg) st1 = (Inr None, st2)"
    using init_model_no_model [OF c1(2) assms(3)] assms(1) by (simp add: st2_def)
  have c2: "external_calls (trace st2)
              = external_calls (trace st) @ map (\<lambda>s. LoadModel s (torch_device w)) model_sizes"
    by (simp add: st2_def external_calls_append c1(1)) (simp add: external_calls_def)
  have c3: "external_calls (trace st3) = external_calls (trace st2)"
    using print_and_update_progress_calls [of "mode cfg" True p1 st2] s3 by simp
  have c4: "external_calls (trace st4) = external_calls (trace st3)"
    using print_and_update_progress_calls [of "mode cfg" False p3 st3] s4 by simp
  have run: "subtitle w cfg st = subtitle_files w cfg None (audio_files cfg) p4 st4"
    unfolding subtitle_def p0_def [symmetric]
    by (simp add: Let_def s1 im s3 p3_def [symmetric] s4)
  have c5: "external_calls (trace (emit (LoadAudio f) st4))
              = external_calls (trace st4) @ [LoadAudio f]" for f
    by (simp add: emit_def external_calls_def)
  show ?thesis
    unfolding run subtitle_files_no_model
    by (simp add: c2 c3 c4 c5 split: list.splits option.splits)
qed

theorem subtitle_without_model_witness:
  "fst (subtitle no_model_world demo_cfg initial_state) = Inl AttributeError
   \<and> external_calls (trace (snd (snd (subtitle no_model_world demo_cfg initial_state))))
       = [LoadModel ''large-v3-turbo'' Cpu, LoadModel ''large-v3'' Cpu,
          LoadModel ''large-v2'' Cpu, LoadModel ''large'' Cpu, LoadModel ''medium'' Cpu,
          LoadModel ''small'' Cpu, LoadModel ''base'' Cpu, LoadModel ''tiny'' Cpu,
          LoadAudio ''tmp/a.wav'']"
proof -
  have a: "model_size demo_cfg = None" by code_simp
  have b: "model_pref initial_state = None" by code_simp
  have c: "\<forall>s \<in> set model_sizes. load_model no_model_world s (torch_device no_model_world) \<noteq> Loaded"
    by code_simp
  have f: "audio_files demo_cfg = [''tmp/a.wav'']" by code_simp
  have g: "dict_get (vid_file_map demo_cfg) ''tmp/a.wav'' = Some ''v/a.mp4''" by code_simp
  have h: "lower (video_language demo_cfg)
             \<in> set (dict_keys (TRANSCRIPTION_SUPPORTED_LANGS no_model_world))"
    by code_simp
  have d: "torch_device no_model_world = Cpu" by code_simp
  have t: "trace initial_state = []" by code_simp
  show ?thesis
    using subtitle_without_model [OF a b c]
    by (simp add: f g h d t model_sizes_def external_calls_def)
qed

subsection \<open>Pipeline Orchestrator: progress accounting\<close>

text \<open>
  Claim C6, as stated, fails. In the run of one video with one target language the total
  is 6, and the signals are \<open>1/2, 1/2, 2/6, 2/6, 3/6, 4/6, 5/6\<close>: the first two signals
  carry the total 2, the first signal comes before anything has been done, the sequence
  repeats a signal instead of increasing, and the ratio of a signal falls from \<open>1/2\<close> to
  \<open>2/6\<close>, so that the ratios are not even in ascending order.
\<close>

theorem subtitle_progress_after_steps_counterexample:
  "fst (subtitle demo_world demo_cfg initial_state) = Inr ()
   \<and> 2 + 2 * length (audio_files demo_cfg)
        + 2 * length (audio_files demo_cfg) * length (translation_languages demo_cfg) = 6
   \<and> progress_signals (trace (snd (snd (subtitle demo_world demo_cfg initial_state))))
       = [(1, 2), (1, 2), (2, 6), (2, 6), (3, 6), (4, 6), (5, 6)]
   \<and> \<not> sorted_wrt (<) (map fst [(1::nat, 2::nat), (1, 2), (2, 6), (2, 6), (3, 6), (4, 6), (5, 6)])
   \<and> \<not> sorted (map (\<lambda>(c, t). rat_of_nat c / rat_of_nat t)
                   [(1, 2), (1, 2), (2, 6), (2, 6), (3, 6), (4, 6), (5, 6)])
   \<and> take 1 (trace (snd (snd (subtitle demo_world demo_cfg initial_state)))) = [Progress 1 2]"
  by code_simp

text \<open>
  Claim C6, amended. Let a run in \<^verbatim>\<open>gui\<close> mode with \<open>I\<close> audio inputs and \<open>T\<close> target
  languages come to its end, and let \<open>N = 2 + 2 * I + 2 * I * T\<close>. Its trace is: the signal
  \<open>1/2\<close>; the events of loading the model, at least one; the signal \<open>1/2\<close>; the signal
  \<open>2/N\<close>, emitted when the total has been set to \<open>N\<close>; and then, the reading of the
  audio files left aside, \<open>N - 2\<close> steps (a transcription, a translation or a file
  written), each followed at once by one signal, which are \<open>2/N, 3/N, \<dots>, (N - 1)/N\<close> in
  this order. The total and the counter both end as \<open>N\<close>. So exactly one signal follows
  each completed step, and these signals count up by one; the signal before the model is
  loaded and the signal that shows the new total follow no step and repeat the value next
  to them, and the first two signals carry the total 2.
\<close>

theorem subtitle_progress_after_steps:
  assumes "mode cfg = Some ''gui''"
    and "subtitle w cfg st = (Inr u, p', st')"
    and "N = 2 + 2 * length (audio_files cfg)
               + 2 * length (audio_files cfg) * length (translation_languages cfg)"
  shows "\<exists>L R steps.
           trace st' = trace st @ Progress 1 2 # L @ Progress 1 2 # Progress 2 N # R
           \<and> L \<noteq> [] \<and> list_all is_model_event L
           \<and> filter (\<lambda>e. \<not> is_load_audio e) R = steps_with_signals steps 2 N
           \<and> length steps = N - 2 \<and> list_all is_step steps
           \<and> total_steps p' = N \<and> current_step p' = N
           \<and> progress_signals (trace st') =
               progress_signals (trace st)
                 @ (1, 2) # (1, 2) # (2, N) # map (\<lambda>k. (k, N)) [2 ..< N]"
proof -
  define st1 where "st1 = emit (Progress 1 2) st"
  obtain res2 st2 where im: "init_model w (model_size cfg) st1 = (res2, st2)"
    by (cases "init_model w (model_size cfg) st1")
  note unfold = subtitle_gui_unfold [OF assms(1) assms(3), of w st, folded st1_def, unfolded im]
  obtain mdl where r2: "res2 = Inr mdl"
    using assms(2) unfold by (cases res2) simp_all
  define st4 where "st4 = emit (Progress 2 N) (emit (Progress 1 2) st2)"
  define p4 where "p4 = \<lparr>current_step = 2, total_steps = N\<rparr>"
  have run: "subtitle_files w cfg mdl (audio_files cfg) p4 st4 = (Inr u, p', st')"
    using assms(2) unfold r2 by (simp add: p4_def st4_def)
  obtain L where L: "trace st2 = trace st1 @ L" "list_all is_model_event L" "L \<noteq> []"
    using init_model_trace [of w "model_size cfg" st1] im by auto
  have NN: "length (audio_files cfg) * (2 + 2 * length (translation_languages cfg)) = N - 2"
    by (simp add: assms(3) algebra_simps)
  obtain R steps where R: "trace st' = trace st4 @ R"
    "filter (\<lambda>e. \<not> is_load_audio e) R = steps_with_signals steps 2 N"
    "length steps = N - 2" "list_all is_step steps"
    using subtitle_files_trace [OF assms(1) run] unfolding NN by (auto simp: p4_def)
  have tr: "trace st' = trace st @ Progress 1 2 # L @ Progress 1 2 # Progress 2 N # R"
    by (simp add: R(1) st4_def emit_def L(1) st1_def)
  obtain new rest where sg: "progress_signals (trace st') = progress_signals (trace st) @ new"
    "new @ rest = (1, 2) # (1, 2) # (2, N) # map (\<lambda>k. (k, N)) [2 ..< N]"
    "rest = [] \<and> total_steps p' = N \<and> current_step p' = N"
    using subtitle_run_signals [OF assms] by blast
  from sg have sig: "progress_signals (trace st') =
               progress_signals (trace st)
                 @ (1, 2) # (1, 2) # (2, N) # map (\<lambda>k. (k, N)) [2 ..< N]"
    by simp
  from tr L(3) L(2) R(2) R(3) R(4) sg(3) sig show ?thesis
    by blast
qed

theorem subtitle_progress_after_steps_witness:
  "\<exists>L R steps.
     trace (snd (snd (subtitle demo_world demo_cfg initial_state)))
       = Progress 1 2 # L @ Progress 1 2 # Progress 2 6 # R
     \<and> L \<noteq> [] \<and> list_all is_model_event L
     \<and> filter (\<lambda>e. \<not> is_load_audio e) R = steps_with_signals steps 2 6
     \<and> length steps = 4 \<and> list_all is_step steps
     \<and> total_steps (fst (snd (subtitle demo_world demo_cfg initial_state))) = 6
     \<and> current_step (fst (snd (subtitle demo_world demo_cfg initial_state))) = 6
     \<and> progress_signals (trace (snd (snd (subtitle demo_world demo_cfg initial_state))))
         = [(1, 2), (1, 2), (2, 6), (2, 6), (3, 6), (4, 6), (5, 6)]"
proof -
  have g: "mode demo_cfg = Some ''gui''" by code_simp
  have r: "fst (subtitle demo_world demo_cfg initial_state) = Inr ()" by code_simp
  obtain p' st' where e: "subtitle demo_world demo_cfg initial_state = (Inr (), p', st')"
    using r by (cases "subtitle demo_world demo_cfg initial_state") auto
  have n: "(6::nat) = 2 + 2 * length (audio_files demo_cfg)
             + 2 * length (audio_files demo_cfg) * length (translation_languages demo_cfg)"
    by code_simp
  have t: "trace initial_state = []" by code_simp
  have u: "[2 ..< 6] = [2, 3, 4, 5::nat]" by code_simp
  from subtitle_progress_after_steps [OF g e n]
  show ?thesis
    by (simp add: e t u)
qed

end
